theory Spec2Isabelle
  imports Complex_Main
begin

section \<open>JavaScript strings\<close>

text \<open>
  A JavaScript string is a sequence of UTF-16 code units. It is modelled as a \<open>string\<close>:
  a \<open>char\<close> stands for one code unit, so the model covers the strings whose code units
  are below 256 (ASCII and the Latin-1 supplement), and \<open>length\<close> is the \<open>.length\<close> of
  the source. The built-in operations below are written for that range.
\<close>

definition isWhiteSpace :: "char \<Rightarrow> bool" where
  \<comment> \<open>\<open>\s\<close> of a regular expression and the characters \<open>trim()\<close> removes: TAB, LF, VT, FF,
      CR, SPACE and NBSP (the others are above code unit 255).\<close>
  "isWhiteSpace c = ((of_char c :: nat) \<in> {9, 10, 11, 12, 13, 32, 160})"

definition trim :: "string \<Rightarrow> string" where
  "trim s = rev (dropWhile isWhiteSpace (rev (dropWhile isWhiteSpace s)))"

definition toLower :: "char \<Rightarrow> char" where
  \<comment> \<open>A-Z, and the Latin-1 capitals 0xC0-0xDE without the multiplication sign 0xD7.\<close>
  "toLower c =
     (let n = (of_char c :: nat)
      in if (65 \<le> n \<and> n \<le> 90) \<or> (192 \<le> n \<and> n \<le> 222 \<and> n \<noteq> 215)
         then char_of (n + 32) else c)"

definition toLowerCase :: "string \<Rightarrow> string" where
  "toLowerCase s = map toLower s"

fun startsWith :: "string \<Rightarrow> string \<Rightarrow> bool" where
  \<comment> \<open>\<open>startsWith s w\<close>: \<open>s.startsWith(w)\<close>\<close>
  "startsWith s [] = True"
| "startsWith [] (c # w) = False"
| "startsWith (d # s) (c # w) = (d = c \<and> startsWith s w)"

fun includes_s :: "string \<Rightarrow> string \<Rightarrow> bool" where
  \<comment> \<open>\<open>includes_s s w\<close>: \<open>s.includes(w)\<close> (\<open>includes\<close> is an Isabelle keyword), \<open>w\<close> occurs in \<open>s\<close> as a contiguous block\<close>
  "includes_s [] w = (w = [])"
| "includes_s (c # s) w = (startsWith (c # s) w \<or> includes_s s w)"

function replaceRuns :: "(char \<Rightarrow> bool) \<Rightarrow> string \<Rightarrow> string \<Rightarrow> string" where
  \<comment> \<open>\<open>replaceRuns P r s\<close>: \<open>s.replace(/[P]+/g, r)\<close>, every maximal run of characters
      of the class becomes one \<open>r\<close>\<close>
  "replaceRuns P r [] = []"
| "replaceRuns P r (c # s) =
     (if P c then r @ replaceRuns P r (dropWhile P s) else c # replaceRuns P r s)"
  by pat_completeness auto
termination
  by (relation "measure (\<lambda>(P, r, s). length s)")
     (auto simp: length_dropWhile_le less_Suc_eq_le)

definition isWordChar :: "char \<Rightarrow> bool" where
  \<comment> \<open>\<open>\w\<close> without the unicode flag: \<open>[A-Za-z0-9_]\<close>\<close>
  "isWordChar c =
     (let n = (of_char c :: nat)
      in (65 \<le> n \<and> n \<le> 90) \<or> (97 \<le> n \<and> n \<le> 122) \<or> (48 \<le> n \<and> n \<le> 57) \<or> n = 95)"

section \<open>Header Normalizer\<close>

definition norm_h :: "string \<Rightarrow> string" where
  \<comment> \<open>\<open>norm\<close> of the source (the name \<open>norm\<close> is taken by HOL): trim, lower-case, then
      the three \<open>replace\<close> calls in the source's order.\<close>
  "norm_h s =
     filter (\<lambda>c. isWordChar c \<or> isWhiteSpace c \<or> c = CHR ''%'')
       (replaceRuns (\<lambda>c. c = CHR ''_'' \<or> c = CHR ''-'') '' ''
         (replaceRuns isWhiteSpace '' ''
           (toLowerCase (trim s))))"

section \<open>Numeric Coercion\<close>

text \<open>
  A JavaScript number is an IEEE binary64 value. The model keeps the three non-finite
  results apart from the finite ones and writes a finite result as the rational number
  the digits denote; the rounding of that number to the nearest binary64 value (which is
  also what a numeric literal with the same digits denotes) is not represented, nor is
  the sign of zero. Overflow to an infinity is represented: it happens from
  \<open>2^1024 - 2^970\<close> on, the midpoint above the largest binary64 number.
\<close>

datatype jsnumber = NaN | PosInfinity | NegInfinity | Finite rat

definition isFinite :: "jsnumber \<Rightarrow> bool" where
  \<comment> \<open>\<open>Number.isFinite\<close>\<close>
  "isFinite n = (case n of Finite q \<Rightarrow> True | _ \<Rightarrow> False)"

definition roundFinite :: "rat \<Rightarrow> jsnumber" where
  "roundFinite q =
     (if 2 ^ 1024 - 2 ^ 970 \<le> q then PosInfinity
      else if q \<le> - (2 ^ 1024 - 2 ^ 970) then NegInfinity
      else Finite q)"

definition negate :: "jsnumber \<Rightarrow> jsnumber" where
  "negate n =
     (case n of NaN \<Rightarrow> NaN | PosInfinity \<Rightarrow> NegInfinity | NegInfinity \<Rightarrow> PosInfinity
      | Finite q \<Rightarrow> Finite (- q))"

definition isDigit :: "char \<Rightarrow> bool" where
  "isDigit c = (48 \<le> (of_char c :: nat) \<and> (of_char c :: nat) \<le> 57)"

definition digitVal :: "char \<Rightarrow> nat" where
  \<comment> \<open>the value of a digit: 0-9, a-f, A-F; 16 for any other character\<close>
  "digitVal c =
     (let n = (of_char c :: nat)
      in if 48 \<le> n \<and> n \<le> 57 then n - 48
         else if 97 \<le> n \<and> n \<le> 102 then n - 87
         else if 65 \<le> n \<and> n \<le> 70 then n - 55
         else 16)"

definition digitsValue :: "nat \<Rightarrow> string \<Rightarrow> nat" where
  "digitsValue base ds = foldl (\<lambda>a c. base * a + digitVal c) 0 ds"

definition decimalDigits :: "string \<Rightarrow> int option" where
  \<comment> \<open>DecimalDigits: one or more digits, nothing else\<close>
  "decimalDigits ds =
     (if ds \<noteq> [] \<and> list_all isDigit ds then Some (int (digitsValue 10 ds)) else None)"

definition exponentPart :: "string \<Rightarrow> int option" where
  \<comment> \<open>what follows the mantissa: nothing, or \<open>e\<close>/\<open>E\<close>, an optional sign and digits\<close>
  "exponentPart s =
     (case s of
        [] \<Rightarrow> Some 0
      | c # r \<Rightarrow>
          if c = CHR ''e'' \<or> c = CHR ''E'' then
            (case r of
               [] \<Rightarrow> None
             | d # ds \<Rightarrow>
                 if d = CHR ''+'' then decimalDigits ds
                 else if d = CHR ''-'' then map_option uminus (decimalDigits ds)
                 else decimalDigits r)
          else None)"

definition scale10 :: "nat \<Rightarrow> int \<Rightarrow> rat" where
  "scale10 m e = (if 0 \<le> e then of_nat m * 10 ^ nat e else of_nat m / 10 ^ nat (- e))"

definition strUnsignedDecimalLiteral :: "string \<Rightarrow> jsnumber" where
  \<comment> \<open>\<open>Infinity\<close>, \<open>digits . digits? exp?\<close>, \<open>. digits exp?\<close> or \<open>digits exp?\<close>; NaN otherwise\<close>
  "strUnsignedDecimalLiteral s =
     (if s = ''Infinity'' then PosInfinity
      else
        let ip = takeWhile isDigit s;
            r1 = dropWhile isDigit s;
            fp = (case r1 of [] \<Rightarrow> [] | c # r \<Rightarrow> if c = CHR ''.'' then takeWhile isDigit r else []);
            r2 = (case r1 of [] \<Rightarrow> [] | c # r \<Rightarrow> if c = CHR ''.'' then dropWhile isDigit r else r1)
        in if ip = [] \<and> fp = [] then NaN
           else (case exponentPart r2 of
                   None \<Rightarrow> NaN
                 | Some e \<Rightarrow> roundFinite (scale10 (digitsValue 10 (ip @ fp)) (e - int (length fp)))))"

definition strDecimalLiteral :: "string \<Rightarrow> jsnumber" where
  "strDecimalLiteral s =
     (case s of
        [] \<Rightarrow> NaN
      | c # r \<Rightarrow>
          if c = CHR ''+'' then strUnsignedDecimalLiteral r
          else if c = CHR ''-'' then negate (strUnsignedDecimalLiteral r)
          else strUnsignedDecimalLiteral s)"

definition nonDecimalIntegerLiteral :: "string \<Rightarrow> nat option" where
  \<comment> \<open>\<open>0x\<close>, \<open>0o\<close>, \<open>0b\<close> (either case) and one or more digits of that base, unsigned\<close>
  "nonDecimalIntegerLiteral s =
     (case s of
        z # b # ds \<Rightarrow>
          let base = (if b = CHR ''x'' \<or> b = CHR ''X'' then 16
                      else if b = CHR ''o'' \<or> b = CHR ''O'' then 8
                      else if b = CHR ''b'' \<or> b = CHR ''B'' then 2 else (0::nat))
          in if z = CHR ''0'' \<and> base \<noteq> 0 \<and> ds \<noteq> [] \<and> list_all (\<lambda>d. digitVal d < base) ds
             then Some (digitsValue base ds) else None
      | _ \<Rightarrow> None)"

definition Number_s :: "string \<Rightarrow> jsnumber" where
  \<comment> \<open>\<open>Number(s)\<close> for a string \<open>s\<close>: StringToNumber. White space around the literal is
      allowed, and the empty literal is 0.\<close>
  "Number_s s =
     (let t = trim s
      in if t = [] then Finite 0
         else (case nonDecimalIntegerLiteral t of
                 Some n \<Rightarrow> roundFinite (of_nat n)
               | None \<Rightarrow> strDecimalLiteral t))"

definition toNumber :: "string option \<Rightarrow> jsnumber option" where
  \<comment> \<open>\<open>raw\<close> is a string or null at every call of the source\<close>
  "toNumber raw =
     (case raw of
        None \<Rightarrow> None
      | Some r \<Rightarrow>
          let s = trim r
          in if s = [] then None
             else
               let cleaned = filter (\<lambda>c. c \<noteq> CHR ''%'') (filter (\<lambda>c. c \<noteq> CHR '','') s);
                   n = Number_s cleaned
               in if isFinite n then Some n else None)"

section \<open>Field Suggester\<close>

datatype ImportFieldKey =
    F_postId | F_text | F_createdAt | F_likes | F_reposts | F_replies | F_quotes
  | F_impressions | F_engagementRate | F_clicks

definition EXPECTED_FIELDS :: "ImportFieldKey list" where
  \<comment> \<open>the keys of \<open>EXPECTED_FIELDS\<close>, which is also the key order of \<open>emptyMapping()\<close>\<close>
  "EXPECTED_FIELDS =
     [F_postId, F_text, F_createdAt, F_likes, F_reposts, F_replies, F_quotes,
      F_impressions, F_engagementRate, F_clicks]"

fun candidates :: "ImportFieldKey \<Rightarrow> string list" where
  "candidates F_postId =
     [''post id'', ''postid'', ''id'', ''tweet id'', ''tweetid'', ''status id'', ''statusid'']"
| "candidates F_text =
     [''text'', ''content'', ''body'', ''message'', ''post'', ''tweet text'', ''tweet'']"
| "candidates F_createdAt =
     [''created at'', ''created'', ''timestamp'', ''time'', ''date'', ''datetime'']"
| "candidates F_likes = [''likes'', ''like'', ''favorites'', ''favourites'']"
| "candidates F_reposts =
     [''reposts'', ''repost'', ''retweets'', ''retweet'', ''shares'', ''share'']"
| "candidates F_replies = [''replies'', ''reply'', ''comments'', ''comment'']"
| "candidates F_quotes = [''quotes'', ''quote'', ''quote tweets'', ''quote tweet'']"
| "candidates F_impressions = [''impressions'', ''impression'', ''views'', ''view'']"
| "candidates F_engagementRate =
     [''engagement rate'', ''engagementrate'', ''er'', ''engagement %'', ''engagement percent'']"
| "candidates F_clicks = [''clicks'', ''click'', ''link clicks'', ''url clicks'']"

text \<open>
  An element of \<open>nHeaders\<close> is the pair \<open>(raw, n)\<close> of a header and its normal form.
  \<open>firstHit\<close> is the loop \<open>for (const w of wanted) { const hit = nHeaders.find(...); if (hit)
  return hit.raw; }\<close>: \<open>Some\<close> is the early return, \<open>None\<close> is falling out of the loop.
\<close>

fun firstHit ::
  "(string \<Rightarrow> string \<times> string \<Rightarrow> bool) \<Rightarrow> string list \<Rightarrow> (string \<times> string) list \<Rightarrow> string option"
where
  "firstHit matches [] nHeaders = None"
| "firstHit matches (w # wanted) nHeaders =
     (case List.find (matches w) nHeaders of
        Some hit \<Rightarrow> Some (fst hit)
      | None \<Rightarrow> firstHit matches wanted nHeaders)"

definition exactMatch :: "string \<Rightarrow> string \<times> string \<Rightarrow> bool" where
  "exactMatch w h = (snd h = w)"

definition containsMatch :: "string \<Rightarrow> string \<times> string \<Rightarrow> bool" where
  "containsMatch w h = (includes_s (snd h) w \<or> includes_s w (snd h))"

definition suggestedHeaderForField :: "ImportFieldKey \<Rightarrow> string list \<Rightarrow> string" where
  "suggestedHeaderForField field hdrs =
     (let nHeaders = map (\<lambda>h. (h, norm_h h)) hdrs;
          wanted = map norm_h (candidates field)
      in case firstHit exactMatch wanted nHeaders of
           Some r \<Rightarrow> r
         | None \<Rightarrow>
             (case firstHit containsMatch wanted nHeaders of
                Some r \<Rightarrow> r
              | None \<Rightarrow> []))"

section \<open>Row Mapper and Mapping Validator\<close>

text \<open>
  \<open>ImportMapping\<close> is \<open>Record<ImportFieldKey, string>\<close>: a header for every key,
  the empty string for "ignore". A \<open>CsvRow\<close> is a plain object with string values. Its
  own properties (the cells) are kept as an association list in the order of its keys.
  Reading \<open>row[h]\<close> finds the own property \<open>h\<close> or, when the row has none, the
  member of that name that every plain object inherits from \<open>Object.prototype\<close>: a
  built-in function, or the prototype object itself under \<open>__proto__\<close>. What
  \<open>mapCsvRow\<close> then uses is \<open>String(v)\<close>, so the model keeps an inherited member as
  that text: \<open>[object Object]\<close> for the prototype, and for a built-in function the
  text V8 prints (other engines lay the same words out differently).
\<close>

type_synonym ImportMapping = "ImportFieldKey \<Rightarrow> string"

type_synonym CsvRow = "(string \<times> string) list"

record ImportedPostRow =
  postId :: "string option"
  text_r :: "string option"
  createdAt :: "string option"
  likes :: "jsnumber option"
  reposts :: "jsnumber option"
  replies :: "jsnumber option"
  quotes :: "jsnumber option"
  impressions :: "jsnumber option"
  engagementRate :: "jsnumber option"
  clicks :: "jsnumber option"

definition emptyMapping :: ImportMapping where
  "emptyMapping = (\<lambda>k. [])"

definition nativeFunction :: "string \<Rightarrow> string" where
  \<comment> \<open>\<open>String(f)\<close> of the built-in function called \<open>name\<close>\<close>
  "nativeFunction name = ''function '' @ name @ ''() { [native code] }''"

definition inheritedMember :: "string \<Rightarrow> string option" where
  \<comment> \<open>\<open>String(v)\<close> of the member of \<open>Object.prototype\<close> called \<open>h\<close>, if there is
      one\<close>
  "inheritedMember h =
     (if h = ''constructor'' then Some (nativeFunction ''Object'')
      else if h = ''__proto__'' then Some ''[object Object]''
      else if h \<in> set [''__defineGetter__'', ''__defineSetter__'', ''hasOwnProperty'',
                        ''__lookupGetter__'', ''__lookupSetter__'', ''isPrototypeOf'',
                        ''propertyIsEnumerable'', ''toString'', ''valueOf'', ''toLocaleString'']
      then Some (nativeFunction h)
      else None)"

definition getProperty :: "CsvRow \<Rightarrow> string \<Rightarrow> string option" where
  \<comment> \<open>\<open>row[h]\<close> as \<open>String(v)\<close>; \<open>None\<close> is \<open>undefined\<close>\<close>
  "getProperty row h =
     (case map_of row h of
        Some v \<Rightarrow> Some v
      | None \<Rightarrow> inheritedMember h)"

definition get_cell :: "CsvRow \<Rightarrow> ImportMapping \<Rightarrow> ImportFieldKey \<Rightarrow> string option" where
  \<comment> \<open>the closure \<open>get\<close> of \<open>mapCsvRow\<close>\<close>
  "get_cell row m k =
     (let h = m k
      in if h = [] then None
         else (case getProperty row h of
                 None \<Rightarrow> None
               | Some v \<Rightarrow> let s = trim v in if s = [] then None else Some s))"

definition mapCsvRow :: "CsvRow \<Rightarrow> ImportMapping \<Rightarrow> ImportedPostRow" where
  "mapCsvRow row m =
     \<lparr> postId = get_cell row m F_postId,
       text_r = get_cell row m F_text,
       createdAt = get_cell row m F_createdAt,
       likes = toNumber (get_cell row m F_likes),
       reposts = toNumber (get_cell row m F_reposts),
       replies = toNumber (get_cell row m F_replies),
       quotes = toNumber (get_cell row m F_quotes),
       impressions = toNumber (get_cell row m F_impressions),
       engagementRate = toNumber (get_cell row m F_engagementRate),
       clicks = toNumber (get_cell row m F_clicks) \<rparr>"

record completeness =
  requiredOk :: bool
  hasDuplicates :: bool

definition mappingCompleteness :: "ImportMapping \<Rightarrow> completeness" where
  "mappingCompleteness m =
     (let chosen = filter (\<lambda>h. h \<noteq> []) (map m EXPECTED_FIELDS);
          uniqueChosen = length (remdups chosen)
      in \<lparr> requiredOk = (m F_postId \<noteq> [] \<and> m F_text \<noteq> [] \<and> m F_createdAt \<noteq> []),
           hasDuplicates = (uniqueChosen \<noteq> length chosen) \<rparr>)"

section \<open>CSV Parser Adapter\<close>

text \<open>
  \<open>Papa.parse\<close> is a library: what it hands to the callbacks of \<open>handleFile\<close> is an
  input of the model, either the \<open>complete\<close> callback with a result (its \<open>errors\<close>,
  each with an optional message, its \<open>data\<close> and its \<open>meta.fields\<close>) or the \<open>error\<close>
  callback with an optional message.
\<close>

record papaResult =
  pr_errors :: "string option list"
  pr_data :: "CsvRow list"
  pr_fields :: "string list option"

datatype papaOutcome = Complete papaResult | ParseFailed "string option"

datatype importStatus = Idle | Ok | Err

record importerState =
  st_fileName :: "string option"
  st_headers :: "string list"
  st_rows :: "CsvRow list"
  st_mapping :: ImportMapping
  st_parseError :: "string option"
  st_importResult :: importStatus

definition resetState :: "importerState \<Rightarrow> importerState" where
  "resetState st =
     st\<lparr> st_parseError := None, st_importResult := Idle, st_headers := [], st_rows := [],
         st_mapping := emptyMapping \<rparr>"

definition orDefault :: "string option \<Rightarrow> string \<Rightarrow> string" where
  \<comment> \<open>\<open>m ?? d\<close>\<close>
  "orDefault m d = (case m of None \<Rightarrow> d | Some x \<Rightarrow> x)"

definition parsedRows :: "papaResult \<Rightarrow> CsvRow list" where
  \<comment> \<open>\<open>(result.data ?? []).filter((r) => r && Object.keys(r).length > 0)\<close>\<close>
  "parsedRows result = filter (\<lambda>r. r \<noteq> []) (pr_data result)"

definition parsedHeaders :: "papaResult \<Rightarrow> string list" where
  \<comment> \<open>\<open>(result.meta?.fields ?? Object.keys(parsedRows[0] ?? {})).filter(Boolean)\<close>\<close>
  "parsedHeaders result =
     filter (\<lambda>h. h \<noteq> [])
       (case pr_fields result of
          Some fs \<Rightarrow> fs
        | None \<Rightarrow> (case parsedRows result of [] \<Rightarrow> [] | r # rs \<Rightarrow> map fst r))"

definition onComplete :: "papaResult \<Rightarrow> importerState \<Rightarrow> importerState" where
  \<comment> \<open>the \<open>complete\<close> callback\<close>
  "onComplete result st =
     (case pr_errors result of
        e # es \<Rightarrow> st\<lparr> st_parseError := Some (orDefault e ''CSV parse failed'') \<rparr>
      | [] \<Rightarrow>
          if parsedHeaders result = [] then
            st\<lparr> st_parseError :=
                  Some ''No headers detected. Ensure the first row contains column names.'' \<rparr>
          else
            st\<lparr> st_headers := parsedHeaders result, st_rows := parsedRows result,
                st_mapping := (\<lambda>k. suggestedHeaderForField k (parsedHeaders result)) \<rparr>)"

definition handleFile :: "string \<Rightarrow> papaOutcome \<Rightarrow> importerState \<Rightarrow> importerState" where
  "handleFile name outcome st =
     (let st1 = (resetState st)\<lparr> st_fileName := Some name \<rparr>
      in case outcome of
           Complete result \<Rightarrow> onComplete result st1
         | ParseFailed msg \<Rightarrow> st1\<lparr> st_parseError := Some (orDefault msg ''CSV parse failed'') \<rparr>)"

section \<open>Text Feature/Classifier\<close>

text \<open>
  The derived features and the heuristic classifier are computed inline in
  \<open>saveImportedPosts\<close>, for each row, from \<open>text\<close>.
\<close>

function splitWhiteSpace :: "string \<Rightarrow> string list" where
  \<comment> \<open>\<open>text.split(/\s+/)\<close>: the pieces between the maximal runs of white space; a run at
      either end leaves an empty piece there, and the empty string gives one empty piece\<close>
  "splitWhiteSpace [] = [[]]"
| "splitWhiteSpace (c # s) =
     (if isWhiteSpace c then [] # splitWhiteSpace (dropWhile isWhiteSpace s)
      else (case splitWhiteSpace s of
              [] \<Rightarrow> [[c]]
            | t # ts \<Rightarrow> (c # t) # ts))"
  by pat_completeness auto
termination
  by (relation "measure length") (auto simp: length_dropWhile_le less_Suc_eq_le)

definition countChar :: "char \<Rightarrow> string \<Rightarrow> nat" where
  \<comment> \<open>\<open>(text.match(/c/g) || []).length\<close>\<close>
  "countChar c s = length (filter (\<lambda>d. d = c) s)"

definition formatTag :: "string \<Rightarrow> string" where
  "formatTag txt =
     (let lowerText = toLowerCase txt;
          t0 = ''standard'';
          t1 = (if includes_s lowerText ''vs'' \<or> includes_s lowerText ''compared to''
                then ''comparison'' else t0);
          t2 = (if includes_s lowerText ''milestone'' \<or> includes_s lowerText ''followers''
                then ''milestone'' else t1);
          t3 = (if includes_s txt ''?'' then ''question'' else t2);
          t4 = (if includes_s lowerText ''1.'' \<or> includes_s lowerText ''- ''
                then ''list'' else t3);
          t5 = (if includes_s lowerText ''how to'' \<or> includes_s lowerText ''tip:''
                then ''tip'' else t4);
          t6 = (if includes_s lowerText ''thread'' then ''story'' else t5);
          t7 = (if includes_s lowerText ''click'' \<or> includes_s lowerText ''link in''
                then ''cta'' else t6)
      in t7)"

record features =
  charCount :: nat
  wordCount :: nat
  hasLink :: bool
  hashtagCount :: nat
  mentionCount :: nat
  formatTag_f :: string

definition derivedFeatures :: "string \<Rightarrow> features" where
  "derivedFeatures txt =
     \<lparr> charCount = length txt,
       wordCount = length (splitWhiteSpace txt),
       hasLink = includes_s txt ''http'',
       hashtagCount = countChar (CHR ''#'') txt,
       mentionCount = countChar (CHR ''@'') txt,
       formatTag_f = formatTag txt \<rparr>"

section \<open>Persistence collaborator\<close>

text \<open>
  The Prisma client and its schema are not among the sources: the tables and the five
  kinds of call the code makes on them are written from the data model and the external
  interfaces the specification lists. A record id is a fresh natural number taken from
  a counter (the source's ids are strings the datastore generates), and an instant (a
  \<open>Date\<close>) is its number of milliseconds since the epoch.

  Any call on the datastore may throw. Which calls do is an input: \<open>throws\<close> gives, for
  each call, the value it throws or \<open>None\<close>. A call that throws leaves the tables as they
  were. The clock readings of one submission and the parser behind \<open>new Date(string)\<close>
  (\<open>None\<close> for an invalid date) are inputs as well.
\<close>

datatype thrown = Error string | NonError

definition messageOf :: "thrown \<Rightarrow> string" where
  \<comment> \<open>\<open>error instanceof Error ? error.message : 'Unknown error'\<close>\<close>
  "messageOf e = (case e of Error m \<Rightarrow> m | NonError \<Rightarrow> ''Unknown error'')"

datatype run_status = STARTED | SUCCESS | FAILED

datatype call =
    UserUpsert | ImportCreate | PostUpsert nat | MetricsSnapshotCreateMany
  | RecomputeRunCreate | RecomputeRunUpdate run_status | RevalidatePath string

record user_rec =
  u_id :: nat
  username :: string
  timezone :: string

record import_rec =
  i_id :: nat
  i_user_id :: nat
  filename :: string
  row_count :: nat
  source_label :: string
  imported_at :: int

record post_rec =
  p_id :: nat
  p_user_id :: nat
  x_post_id :: string
  text_p :: string
  created_at :: int
  char_count :: nat
  word_count :: nat
  has_link :: bool
  has_media :: bool
  hashtag_count :: nat
  mention_count :: nat
  format_tag :: string

record snapshot_rec =
  post_id :: nat
  import_id :: nat
  captured_at :: int
  like_count :: jsnumber
  repost_count :: jsnumber
  reply_count :: jsnumber
  quote_count :: jsnumber
  impression_count :: jsnumber
  engagement_rate :: jsnumber
  s_clicks :: jsnumber

record run_rec =
  r_id :: nat
  status :: run_status
  started_at :: int
  ended_at :: "int option"
  error_text :: "string option"

datatype logline =
    ImportStarting nat "string option"
  | ImportSuccess nat
  | ImportErrorLine thrown
  | AnalyticsStarting
  | AnalyticsFinished int
  | AnalyticsFailedLine thrown

record world =
  users :: "user_rec list"
  imports_t :: "import_rec list"
  posts :: "post_rec list"
  metricsSnapshots :: "snapshot_rec list"
  recomputeRuns :: "run_rec list"
  next_id :: nat
  console :: "logline list"

record env =
  parseDate :: "string \<Rightarrow> int option"
  throws :: "call \<Rightarrow> thrown option"
  importedAt :: int
  startTime :: int
  endTime :: int
  logTime :: int

type_synonym 'a action = "world \<Rightarrow> (thrown + 'a) \<times> world"

definition andThen :: "'a action \<Rightarrow> ('a \<Rightarrow> 'b action) \<Rightarrow> 'b action" where
  \<comment> \<open>one awaited step after another: a throw skips the rest\<close>
  "andThen f g w = (case f w of (Inl e, w') \<Rightarrow> (Inl e, w') | (Inr x, w') \<Rightarrow> g x w')"

definition attempt :: "env \<Rightarrow> call \<Rightarrow> (world \<Rightarrow> 'a \<times> world) \<Rightarrow> 'a action" where
  "attempt ev c op w =
     (case throws ev c of
        Some e \<Rightarrow> (Inl e, w)
      | None \<Rightarrow> (case op w of (x, w') \<Rightarrow> (Inr x, w')))"

definition consoleLog :: "logline \<Rightarrow> world \<Rightarrow> world" where
  "consoleLog l w = w\<lparr> console := console w @ [l] \<rparr>"

definition userUpsert :: "world \<Rightarrow> user_rec \<times> world" where
  \<comment> \<open>Modelled from the spec: the Prisma call \<open>user.upsert\<close> keyed by the username
      \<open>default\<close>, with an empty update.\<close>
  "userUpsert w =
     (case List.find (\<lambda>u. username u = ''default'') (users w) of
        Some u \<Rightarrow> (u, w)
      | None \<Rightarrow>
          let u = \<lparr> u_id = next_id w, username = ''default'', timezone = ''America/Chicago'' \<rparr>
          in (u, w\<lparr> users := users w @ [u], next_id := Suc (next_id w) \<rparr>))"

definition importCreate :: "nat \<Rightarrow> string \<Rightarrow> nat \<Rightarrow> int \<Rightarrow> world \<Rightarrow> import_rec \<times> world" where
  \<comment> \<open>Modelled from the spec: the Prisma call \<open>import.create\<close>; the datastore sets
      \<open>imported_at\<close>.\<close>
  "importCreate uid fname n t w =
     (let r = \<lparr> i_id = next_id w, i_user_id = uid, filename = fname, row_count = n,
                source_label = ''X Analytics Export'', imported_at = t \<rparr>
      in (r, w\<lparr> imports_t := imports_t w @ [r], next_id := Suc (next_id w) \<rparr>))"

definition writeFeatures :: "string \<Rightarrow> int \<Rightarrow> features \<Rightarrow> post_rec \<Rightarrow> post_rec" where
  \<comment> \<open>the \<open>update\<close> object of the post upsert\<close>
  "writeFeatures txt created f p =
     p\<lparr> text_p := txt, created_at := created, char_count := charCount f,
        word_count := wordCount f, has_link := hasLink f, hashtag_count := hashtagCount f,
        mention_count := mentionCount f, format_tag := formatTag_f f \<rparr>"

definition postUpsert ::
  "nat \<Rightarrow> string \<Rightarrow> string \<Rightarrow> int \<Rightarrow> features \<Rightarrow> world \<Rightarrow> post_rec \<times> world"
where
  \<comment> \<open>Modelled from the spec: the Prisma call \<open>post.upsert\<close> keyed by the unique
      \<open>x_post_id\<close>: the post with that key is updated, or one is created.\<close>
  "postUpsert uid xid txt created f w =
     (case List.find (\<lambda>p. x_post_id p = xid) (posts w) of
        Some p \<Rightarrow>
          (writeFeatures txt created f p,
           w\<lparr> posts := map (\<lambda>q. if x_post_id q = xid then writeFeatures txt created f q else q)
                          (posts w) \<rparr>)
      | None \<Rightarrow>
          let p = \<lparr> p_id = next_id w, p_user_id = uid, x_post_id = xid, text_p = txt,
                    created_at = created, char_count = charCount f, word_count = wordCount f,
                    has_link = hasLink f, has_media = False, hashtag_count = hashtagCount f,
                    mention_count = mentionCount f, format_tag = formatTag_f f \<rparr>
          in (p, w\<lparr> posts := posts w @ [p], next_id := Suc (next_id w) \<rparr>))"

definition createMany :: "snapshot_rec list \<Rightarrow> world \<Rightarrow> unit \<times> world" where
  \<comment> \<open>Modelled from the spec: the Prisma call \<open>metricsSnapshot.createMany\<close>, one batch
      insert.\<close>
  "createMany snaps w = ((), w\<lparr> metricsSnapshots := metricsSnapshots w @ snaps \<rparr>)"

definition recomputeRunCreate :: "int \<Rightarrow> world \<Rightarrow> run_rec \<times> world" where
  \<comment> \<open>Modelled from the spec: the Prisma call \<open>recomputeRun.create\<close> with status
      STARTED.\<close>
  "recomputeRunCreate t w =
     (let r = \<lparr> r_id = next_id w, status = STARTED, started_at = t, ended_at = None,
                error_text = None \<rparr>
      in (r, w\<lparr> recomputeRuns := recomputeRuns w @ [r], next_id := Suc (next_id w) \<rparr>))"

definition recomputeRunUpdate :: "nat \<Rightarrow> (run_rec \<Rightarrow> run_rec) \<Rightarrow> world \<Rightarrow> unit \<times> world" where
  \<comment> \<open>Modelled from the spec: the Prisma call \<open>recomputeRun.update\<close> of the run with
      the given id.\<close>
  "recomputeRunUpdate rid f w =
     ((), w\<lparr> recomputeRuns := map (\<lambda>r. if r_id r = rid then f r else r) (recomputeRuns w) \<rparr>)"

section \<open>Recompute collaborator\<close>

datatype recomputeResult = RecomputeOk nat | RecomputeFailed string

definition recomputeAnalytics :: "env \<Rightarrow> recomputeResult action" where
  "recomputeAnalytics ev w0 =
     (let w1 = consoleLog AnalyticsStarting w0
      in case attempt ev RecomputeRunCreate (recomputeRunCreate (startTime ev)) w1 of
           (Inl e, w2) \<Rightarrow> (Inl e, w2)
         | (Inr run, w2) \<Rightarrow>
             (case attempt ev (RecomputeRunUpdate SUCCESS)
                     (recomputeRunUpdate (r_id run)
                        (\<lambda>r. r\<lparr> status := SUCCESS, ended_at := Some (endTime ev) \<rparr>)) w2 of
                (Inr u, w3) \<Rightarrow>
                  (Inr (RecomputeOk (r_id run)),
                   consoleLog (AnalyticsFinished (logTime ev - startTime ev)) w3)
              | (Inl err, w3) \<Rightarrow>
                  let w4 = consoleLog (AnalyticsFailedLine err) w3;
                      message = messageOf err
                  in (case attempt ev (RecomputeRunUpdate FAILED)
                            (recomputeRunUpdate (r_id run)
                               (\<lambda>r. r\<lparr> status := FAILED, error_text := Some message,
                                       ended_at := Some (endTime ev) \<rparr>)) w4 of
                        (Inl e2, w5) \<Rightarrow> (Inl e2, w5)
                      | (Inr u, w5) \<Rightarrow> (Inr (RecomputeFailed message), w5))))"

section \<open>Import Orchestrator\<close>

text \<open>
  The rows of one batch are started together (\<open>Promise.all\<close> over \<open>batch.map\<close>), so the
  upsert of every row of the batch is issued whatever happens to the others. The model
  runs them one after the other, in the order of the rows: every row of the batch is
  processed, and the batch throws what the first row that threw did. The source fixes no
  order among the rows of a batch.
\<close>

record importData =
  d_fileName :: "string option"
  d_mapping :: ImportMapping
  d_rows :: "ImportedPostRow list"

datatype importResult = Success nat | Failure string

definition BATCH_SIZE :: nat where
  "BATCH_SIZE = 50"

definition orZero :: "jsnumber option \<Rightarrow> jsnumber" where
  \<comment> \<open>\<open>v ?? 0\<close>\<close>
  "orZero v = (case v of None \<Rightarrow> Finite 0 | Some x \<Rightarrow> x)"

definition processRow ::
  "env \<Rightarrow> user_rec \<Rightarrow> import_rec \<Rightarrow> nat \<Rightarrow> ImportedPostRow \<Rightarrow> world \<times> snapshot_rec list
     \<Rightarrow> thrown option \<times> (world \<times> snapshot_rec list)"
where
  \<comment> \<open>the body of the \<open>async (row) => ...\<close> of the batch; \<open>i\<close> is the index of the
      row among the submitted rows, and \<open>Some e\<close> is a rejection\<close>
  "processRow ev user importRecord i row st =
     (let xPostId = map_option trim (postId row);
          txt = (case text_r row of None \<Rightarrow> [] | Some t \<Rightarrow> t);
          createdAtRaw = createdAt row
      in case xPostId of
           None \<Rightarrow> (None, st)
         | Some xid \<Rightarrow>
             (case createdAtRaw of
                None \<Rightarrow> (None, st)
              | Some raw \<Rightarrow>
                  if xid = [] \<or> raw = [] then (None, st)
                  else
                    (case parseDate ev raw of
                       None \<Rightarrow> (None, st)
                     | Some created \<Rightarrow>
                         (case throws ev (PostUpsert i) of
                            Some e \<Rightarrow> (Some e, st)
                          | None \<Rightarrow>
                              (case postUpsert (u_id user) xid txt created (derivedFeatures txt)
                                      (fst st) of
                                 (post, w') \<Rightarrow>
                                   (None,
                                    (w',
                                     snd st @
                                     [\<lparr> post_id = p_id post,
                                        import_id = i_id importRecord,
                                        captured_at = imported_at importRecord,
                                        like_count = orZero (likes row),
                                        repost_count = orZero (reposts row),
                                        reply_count = orZero (replies row),
                                        quote_count = orZero (quotes row),
                                        impression_count = orZero (impressions row),
                                        engagement_rate = orZero (engagementRate row),
                                        s_clicks = orZero (clicks row) \<rparr>])))))))"

fun runBatch ::
  "env \<Rightarrow> user_rec \<Rightarrow> import_rec \<Rightarrow> nat \<Rightarrow> ImportedPostRow list \<Rightarrow> world \<times> snapshot_rec list
     \<Rightarrow> thrown option \<times> (world \<times> snapshot_rec list)"
where
  "runBatch ev user importRecord i [] st = (None, st)"
| "runBatch ev user importRecord i (row # batch) st =
     (case processRow ev user importRecord i row st of
        (r, st') \<Rightarrow>
          (case runBatch ev user importRecord (Suc i) batch st' of
             (rs, st'') \<Rightarrow> ((case r of Some e \<Rightarrow> Some e | None \<Rightarrow> rs), st'')))"

function importLoop ::
  "env \<Rightarrow> user_rec \<Rightarrow> import_rec \<Rightarrow> ImportedPostRow list \<Rightarrow> nat \<Rightarrow> world \<times> snapshot_rec list
     \<Rightarrow> thrown option \<times> (world \<times> snapshot_rec list)"
where
  \<comment> \<open>\<open>for (let i = 0; i < rows.length; i += BATCH_SIZE)\<close>\<close>
  "importLoop ev user importRecord rs i st =
     (if i < length rs then
        (case runBatch ev user importRecord i (take BATCH_SIZE (drop i rs)) st of
           (Some e, st') \<Rightarrow> (Some e, st')
         | (None, st') \<Rightarrow> importLoop ev user importRecord rs (i + BATCH_SIZE) st')
      else (None, st))"
  by pat_completeness auto
termination
  by (relation "measure (\<lambda>(ev, user, importRecord, rs, i, st). length rs - i)")
     (auto simp: BATCH_SIZE_def)

declare importLoop.simps [simp del]

definition processRows ::
  "env \<Rightarrow> user_rec \<Rightarrow> import_rec \<Rightarrow> ImportedPostRow list \<Rightarrow> snapshot_rec list action"
where
  \<comment> \<open>the loop, started with an empty \<open>snapshotsToCreate\<close>\<close>
  "processRows ev user importRecord rs w =
     (case importLoop ev user importRecord rs 0 (w, []) of
        (Some e, st) \<Rightarrow> (Inl e, fst st)
      | (None, st) \<Rightarrow> (Inr (snd st), fst st))"

definition importWrites :: "env \<Rightarrow> importData \<Rightarrow> (import_rec \<times> snapshot_rec list) action" where
  \<comment> \<open>the \<open>try\<close> block of \<open>saveImportedPosts\<close> up to its step 3: the user, the Import
      record, the batches and the one batch insert of the snapshots; it returns
      \<open>importRecord\<close> and \<open>snapshotsToCreate\<close>\<close>
  "importWrites ev d w0 =
     (let rs = d_rows d;
          w1 = consoleLog (ImportStarting (length rs) (d_fileName d)) w0
      in andThen (attempt ev UserUpsert userUpsert) (\<lambda>user.
         andThen (attempt ev ImportCreate
                    (importCreate (u_id user)
                       (case d_fileName d of
                          None \<Rightarrow> ''import.csv''
                        | Some f \<Rightarrow> if f = [] then ''import.csv'' else f)
                       (length rs) (importedAt ev))) (\<lambda>importRecord.
         andThen (processRows ev user importRecord rs) (\<lambda>snapshotsToCreate.
         andThen (if snapshotsToCreate \<noteq> []
                  then attempt ev MetricsSnapshotCreateMany (createMany snapshotsToCreate)
                  else (\<lambda>w. (Inr (), w))) (\<lambda>u1 w.
           (Inr (importRecord, snapshotsToCreate), w))))) w1)"

definition importBody :: "env \<Rightarrow> importData \<Rightarrow> nat action" where
  \<comment> \<open>the whole \<open>try\<close> block: the writes, then step 4 (the recompute, whose result is
      not looked at), the two \<open>revalidatePath\<close> calls and the \<open>return\<close> of the id of
      the Import\<close>
  "importBody ev d =
     andThen (importWrites ev d) (\<lambda>(importRecord, snapshotsToCreate).
     andThen (recomputeAnalytics ev) (\<lambda>res.
     andThen (attempt ev (RevalidatePath ''/'') (\<lambda>w. ((), w))) (\<lambda>u2.
     andThen (attempt ev (RevalidatePath ''/analytics'') (\<lambda>w. ((), w))) (\<lambda>u3 w.
       (Inr (i_id importRecord),
        consoleLog (ImportSuccess (length snapshotsToCreate)) w)))))"

definition saveImportedPosts :: "env \<Rightarrow> importData \<Rightarrow> world \<Rightarrow> importResult \<times> world" where
  "saveImportedPosts ev d w =
     (case importBody ev d w of
        (Inr importId, w') \<Rightarrow> (Success importId, w')
      | (Inl e, w') \<Rightarrow> (Failure (messageOf e), consoleLog (ImportErrorLine e) w'))"

section \<open>Notions used in the statements\<close>

definition chosen :: "ImportMapping \<Rightarrow> string list" where
  \<comment> \<open>the non-empty chosen headers of a mapping, one entry for each key that has one\<close>
  "chosen m = filter (\<lambda>h. h \<noteq> []) (map m EXPECTED_FIELDS)"

definition isNull :: "ImportedPostRow \<Rightarrow> ImportFieldKey \<Rightarrow> bool" where
  \<comment> \<open>the field of a mapped row that belongs to a key is null\<close>
  "isNull r k =
     (case k of
        F_postId \<Rightarrow> postId r = None | F_text \<Rightarrow> text_r r = None
      | F_createdAt \<Rightarrow> createdAt r = None | F_likes \<Rightarrow> likes r = None
      | F_reposts \<Rightarrow> reposts r = None | F_replies \<Rightarrow> replies r = None
      | F_quotes \<Rightarrow> quotes r = None | F_impressions \<Rightarrow> impressions r = None
      | F_engagementRate \<Rightarrow> engagementRate r = None | F_clicks \<Rightarrow> clicks r = None)"

definition okResult :: papaResult where
  \<comment> \<open>a file with a header line and no data rows\<close>
  "okResult = \<lparr> pr_errors = [], pr_data = [], pr_fields = Some [''Tweet id'', ''Text'', ''''] \<rparr>"

definition errResult :: papaResult where
  \<comment> \<open>a parse that reports two errors and still carries a row\<close>
  "errResult =
     \<lparr> pr_errors = [Some ''Too few fields'', None], pr_data = [[(''a'', ''1'')]],
       pr_fields = Some [''a''] \<rparr>"

definition noHeaderResult :: papaResult where
  \<comment> \<open>an empty file\<close>
  "noHeaderResult = \<lparr> pr_errors = [], pr_data = [], pr_fields = Some [] \<rparr>"

definition state0 :: importerState where
  "state0 =
     \<lparr> st_fileName = None, st_headers = [''old''], st_rows = [[(''old'', ''x'')]],
       st_mapping = emptyMapping, st_parseError = None, st_importResult = Idle \<rparr>"

text \<open>
  The seven tests of the classifier, in the order of the source, and the tag each one
  sets. \<open>lastMatchWins\<close> runs through them in that order and keeps the tag of the last
  test that holds.
\<close>

definition matchesComparison :: "string \<Rightarrow> bool" where
  "matchesComparison txt = (includes_s (toLowerCase txt) ''vs'' \<or> includes_s (toLowerCase txt) ''compared to'')"
definition matchesMilestone :: "string \<Rightarrow> bool" where
  "matchesMilestone txt = (includes_s (toLowerCase txt) ''milestone'' \<or> includes_s (toLowerCase txt) ''followers'')"
definition matchesQuestion :: "string \<Rightarrow> bool" where
  "matchesQuestion txt = includes_s txt ''?''"
definition matchesList :: "string \<Rightarrow> bool" where
  "matchesList txt = (includes_s (toLowerCase txt) ''1.'' \<or> includes_s (toLowerCase txt) ''- '')"
definition matchesTip :: "string \<Rightarrow> bool" where
  "matchesTip txt = (includes_s (toLowerCase txt) ''how to'' \<or> includes_s (toLowerCase txt) ''tip:'')"
definition matchesStory :: "string \<Rightarrow> bool" where
  "matchesStory txt = includes_s (toLowerCase txt) ''thread''"
definition matchesCta :: "string \<Rightarrow> bool" where
  "matchesCta txt = (includes_s (toLowerCase txt) ''click'' \<or> includes_s (toLowerCase txt) ''link in'')"

definition tagRules :: "((string \<Rightarrow> bool) \<times> string) list" where
  "tagRules =
     [(matchesComparison, ''comparison''), (matchesMilestone, ''milestone''),
      (matchesQuestion, ''question''), (matchesList, ''list''), (matchesTip, ''tip''),
      (matchesStory, ''story''), (matchesCta, ''cta'')]"

definition lastMatchWins :: "string \<Rightarrow> string" where
  "lastMatchWins txt = foldl (\<lambda>tag (p, t). if p txt then t else tag) ''standard'' tagRules"

text \<open>
  The two ways a synonym \<open>w\<close> can match the normal form \<open>n\<close> of a header, and what it
  is for \<open>r\<close> to be the first match: \<open>r\<close> is the earliest header that matches the
  earliest synonym that any header matches.
\<close>

definition exactRel :: "string \<Rightarrow> string \<Rightarrow> bool" where
  "exactRel w n = (n = w)"

definition containsRel :: "string \<Rightarrow> string \<Rightarrow> bool" where
  "containsRel w n = (includes_s n w \<or> includes_s w n)"

definition anyMatch :: "(string \<Rightarrow> string \<Rightarrow> bool) \<Rightarrow> string list \<Rightarrow> string list \<Rightarrow> bool" where
  "anyMatch rel wanted hdrs = (\<exists>w \<in> set wanted. \<exists>h \<in> set hdrs. rel w (norm_h h))"

definition firstIn ::
  "(string \<Rightarrow> string \<Rightarrow> bool) \<Rightarrow> string list \<Rightarrow> string list \<Rightarrow> string \<Rightarrow> bool"
where
  "firstIn rel wanted hdrs r =
     (\<exists>i j. i < length wanted \<and> j < length hdrs \<and> r = hdrs ! j
        \<and> rel (wanted ! i) (norm_h (hdrs ! j))
        \<and> (\<forall>i' < i. \<forall>h \<in> set hdrs. \<not> rel (wanted ! i') (norm_h h))
        \<and> (\<forall>j' < j. \<not> rel (wanted ! i) (norm_h (hdrs ! j'))))"

text \<open>
  The notions below are used to state what the Import Orchestrator does. \<open>accepted\<close> is
  the negation of the two \<open>return\<close> statements that skip a row. The concrete rows,
  environments and datastore at the end are the inputs the statements are tried on.
\<close>

definition sameButPosts :: "world \<Rightarrow> world \<Rightarrow> bool" where
  \<comment> \<open>a step that only touched the posts: every other table and the log are as before, and ids only grow\<close>
  "sameButPosts w w' =
     (users w' = users w \<and> imports_t w' = imports_t w
      \<and> metricsSnapshots w' = metricsSnapshots w \<and> recomputeRuns w' = recomputeRuns w
      \<and> console w' = console w \<and> next_id w \<le> next_id w')"

definition accepted :: "env \<Rightarrow> ImportedPostRow \<Rightarrow> bool" where
  \<comment> \<open>the row is not skipped: it has a \<open>postId\<close> that is not blank, a non-empty \<open>createdAt\<close>, and that parses\<close>
  "accepted ev row =
     ((case postId row of None \<Rightarrow> False | Some p \<Rightarrow> trim p \<noteq> [])
      \<and> (case createdAt row of None \<Rightarrow> False | Some c \<Rightarrow> c \<noteq> [] \<and> parseDate ev c \<noteq> None))"

definition snapshotOf :: "import_rec \<Rightarrow> ImportedPostRow \<Rightarrow> nat \<Rightarrow> snapshot_rec" where
  \<comment> \<open>the snapshot of a row in an import, for the post with the given id\<close>
  "snapshotOf importRecord row pid =
     \<lparr> post_id = pid, import_id = i_id importRecord, captured_at = imported_at importRecord,
       like_count = orZero (likes row), repost_count = orZero (reposts row),
       reply_count = orZero (replies row), quote_count = orZero (quotes row),
       impression_count = orZero (impressions row),
       engagement_rate = orZero (engagementRate row), s_clicks = orZero (clicks row) \<rparr>"

definition rowText :: "ImportedPostRow \<Rightarrow> string" where
  \<comment> \<open>\<open>row.text ?? ''\<close>\<close>
  "rowText row = (case text_r row of None \<Rightarrow> [] | Some t \<Rightarrow> t)"

definition rowKey :: "ImportedPostRow \<Rightarrow> string" where
  \<comment> \<open>the external id a row is upserted under: its trimmed \<open>postId\<close>\<close>
  "rowKey row = (case postId row of None \<Rightarrow> [] | Some p \<Rightarrow> trim p)"

definition rowCreated :: "env \<Rightarrow> ImportedPostRow \<Rightarrow> int" where
  \<comment> \<open>the instant \<open>createdAt\<close> parses to\<close>
  "rowCreated ev row =
     (case createdAt row of
        None \<Rightarrow> 0
      | Some c \<Rightarrow> (case parseDate ev c of None \<Rightarrow> 0 | Some t \<Rightarrow> t))"

definition rowUpsert :: "env \<Rightarrow> user_rec \<Rightarrow> ImportedPostRow \<Rightarrow> world \<Rightarrow> post_rec \<times> world" where
  \<comment> \<open>the post upsert an accepted row makes\<close>
  "rowUpsert ev user row w =
     postUpsert (u_id user) (rowKey row) (rowText row) (rowCreated ev row)
       (derivedFeatures (rowText row)) w"

definition stepRow ::
  "env \<Rightarrow> user_rec \<Rightarrow> import_rec \<Rightarrow> world \<times> snapshot_rec list \<Rightarrow> ImportedPostRow
     \<Rightarrow> world \<times> snapshot_rec list"
where
  \<comment> \<open>what one row does to the tables and to \<open>snapshotsToCreate\<close> when its upsert does not throw\<close>
  "stepRow ev user imp st row =
     (if accepted ev row
      then (snd (rowUpsert ev user row (fst st)),
            snd st @ [snapshotOf imp row (p_id (fst (rowUpsert ev user row (fst st))))])
      else st)"

definition noPostUpsertThrows :: "env \<Rightarrow> bool" where
  \<comment> \<open>no post upsert throws\<close>
  "noPostUpsertThrows ev = (\<forall>i. throws ev (PostUpsert i) = None)"

definition clearPost :: "snapshot_rec \<Rightarrow> snapshot_rec" where
  \<comment> \<open>a snapshot without the reference to its post\<close>
  "clearPost s = s\<lparr> post_id := 0 \<rparr>"

definition noWriteThrows :: "env \<Rightarrow> bool" where
  \<comment> \<open>none of the writes of the import throws (the recompute and \<open>revalidatePath\<close> may)\<close>
  "noWriteThrows ev =
     (throws ev UserUpsert = None \<and> throws ev ImportCreate = None \<and> noPostUpsertThrows ev
      \<and> throws ev MetricsSnapshotCreateMany = None)"

definition fileNameOf :: "importData \<Rightarrow> string" where
  \<comment> \<open>\<open>fileName || 'import.csv'\<close>\<close>
  "fileNameOf d =
     (case d_fileName d of None \<Rightarrow> ''import.csv'' | Some f \<Rightarrow> if f = [] then ''import.csv'' else f)"

definition writesDone :: "env \<Rightarrow> importData \<Rightarrow> world \<Rightarrow> (import_rec \<times> snapshot_rec list) \<times> world" where
  \<comment> \<open>the Import record, the snapshots and the tables after the writes of an import in which no write throws\<close>
  "writesDone ev d w0 =
     (let w1 = consoleLog (ImportStarting (length (d_rows d)) (d_fileName d)) w0;
          user = fst (userUpsert w1);
          w2 = snd (userUpsert w1);
          imp = fst (importCreate (u_id user) (fileNameOf d) (length (d_rows d)) (importedAt ev) w2);
          w3 = snd (importCreate (u_id user) (fileNameOf d) (length (d_rows d)) (importedAt ev) w2);
          st = foldl (stepRow ev user imp) (w3, []) (d_rows d)
      in ((imp, snd st), (fst st)\<lparr> metricsSnapshots := metricsSnapshots (fst st) @ snd st \<rparr>))"

definition tablesEq :: "world \<Rightarrow> world \<Rightarrow> bool" where
  \<comment> \<open>the tables an import writes are the same in both states, and ids only grow\<close>
  "tablesEq w w' =
     (users w' = users w \<and> imports_t w' = imports_t w \<and> posts w' = posts w
      \<and> metricsSnapshots w' = metricsSnapshots w \<and> next_id w \<le> next_id w')"

definition fieldsFrom :: "env \<Rightarrow> ImportedPostRow \<Rightarrow> post_rec \<Rightarrow> bool" where
  \<comment> \<open>the post carries the key, text, creation time and derived features of the row\<close>
  "fieldsFrom ev row p =
     (x_post_id p = rowKey row \<and> text_p p = rowText row \<and> created_at p = rowCreated ev row
      \<and> char_count p = length (rowText row)
      \<and> word_count p = length (splitWhiteSpace (rowText row))
      \<and> has_link p = includes_s (rowText row) ''http''
      \<and> hashtag_count p = countChar (CHR ''#'') (rowText row)
      \<and> mention_count p = countChar (CHR ''@'') (rowText row)
      \<and> format_tag p = formatTag (rowText row))"

definition postsWith :: "string \<Rightarrow> world \<Rightarrow> post_rec list" where
  \<comment> \<open>the posts with a given external id\<close>
  "postsWith xid w = filter (\<lambda>p. x_post_id p = xid) (posts w)"

definition envOk :: env where
  \<comment> \<open>an environment in which no call throws\<close>
  "envOk =
     \<lparr> parseDate = (\<lambda>s. if s = ''2024-01-01T00:00:00Z'' then Some 1704067200000 else None),
       throws = (\<lambda>c. None), importedAt = 1718000000000, startTime = 1718000000100,
       endTime = 1718000000200, logTime = 1718000000300 \<rparr>"

definition emptyWorld :: world where
  \<comment> \<open>the empty datastore\<close>
  "emptyWorld =
     \<lparr> users = [], imports_t = [], posts = [], metricsSnapshots = [], recomputeRuns = [],
       next_id = 0, console = [] \<rparr>"

definition rowA :: ImportedPostRow where
  "rowA =
     \<lparr> postId = Some ''1001'', text_r = Some ''Hello world'',
       createdAt = Some ''2024-01-01T00:00:00Z'', likes = Some (Finite 3), reposts = None,
       replies = None, quotes = None, impressions = Some (Finite 120), engagementRate = None,
       clicks = None \<rparr>"

definition rowNoId :: ImportedPostRow where
  "rowNoId = rowA\<lparr> postId := None \<rparr>"

definition rowNoText :: ImportedPostRow where
  "rowNoText = rowA\<lparr> postId := Some '' 1002 '', text_r := None \<rparr>"

definition rowA2 :: ImportedPostRow where
  \<comment> \<open>the row \<open>rowA\<close> again, exported later: same id, other text and likes\<close>
  "rowA2 = rowA\<lparr> text_r := Some ''Edited?'', likes := Some (Finite 5) \<rparr>"

definition userA :: user_rec where
  "userA = \<lparr> u_id = 0, username = ''default'', timezone = ''America/Chicago'' \<rparr>"

definition importA :: import_rec where
  "importA =
     \<lparr> i_id = 1, i_user_id = 0, filename = ''posts.csv'', row_count = 1,
       source_label = ''X Analytics Export'', imported_at = 1718000000000 \<rparr>"

definition envUpdateFails :: env where
  \<comment> \<open>the update of the run to SUCCESS throws\<close>
  "envUpdateFails =
     envOk\<lparr> throws :=
       (\<lambda>c. if c = RecomputeRunUpdate SUCCESS then Some (Error ''timeout'') else None) \<rparr>"

definition envCreateFails :: env where
  \<comment> \<open>creating the run throws\<close>
  "envCreateFails =
     envOk\<lparr> throws :=
       (\<lambda>c. if c = RecomputeRunCreate then Some (Error ''db down'') else None) \<rparr>"

definition dataOf :: "ImportedPostRow list \<Rightarrow> importData" where
  "dataOf rs = \<lparr> d_fileName = Some ''posts.csv'', d_mapping = emptyMapping, d_rows = rs \<rparr>"

definition emptyTextPost :: "string \<Rightarrow> int \<Rightarrow> post_rec \<Rightarrow> bool" where
  \<comment> \<open>a post with the given key and creation time, the empty text and the features of the empty text\<close>
  "emptyTextPost xid t p =
     (x_post_id p = xid \<and> created_at p = t \<and> text_p p = [] \<and> char_count p = 0
      \<and> word_count p = 1 \<and> \<not> has_link p \<and> hashtag_count p = 0 \<and> mention_count p = 0
      \<and> format_tag p = ''standard'')"

definition failedRun :: "env \<Rightarrow> thrown \<Rightarrow> run_rec \<Rightarrow> bool" where
  \<comment> \<open>a run recorded as FAILED with the message of what was thrown\<close>
  "failedRun ev e r =
     (status r = FAILED \<and> error_text r = Some (messageOf e) \<and> started_at r = startTime ev
      \<and> ended_at r = Some (endTime ev))"

section \<open>Verified properties\<close>

subsection \<open>Mapping Validator\<close>

lemma distinct_EXPECTED_FIELDS: "distinct EXPECTED_FIELDS"
  by (simp add: EXPECTED_FIELDS_def)

lemma set_EXPECTED_FIELDS: "set EXPECTED_FIELDS = UNIV"
proof -
  have "k \<in> set EXPECTED_FIELDS" for k
    by (cases k) (simp_all add: EXPECTED_FIELDS_def)
  then show ?thesis by blast
qed

lemma chosen_as_map: "chosen m = map m (filter (\<lambda>k. m k \<noteq> []) EXPECTED_FIELDS)"
  by (simp add: chosen_def filter_map comp_def)

lemma distinct_chosen:
  "distinct (chosen m) = (\<forall>k k'. m k \<noteq> [] \<and> m k = m k' \<longrightarrow> k = k')"
proof -
  have "distinct (chosen m) = inj_on m {k. m k \<noteq> []}"
    by (simp add: chosen_as_map distinct_map distinct_EXPECTED_FIELDS set_EXPECTED_FIELDS)
  also have "\<dots> = (\<forall>k k'. m k \<noteq> [] \<and> m k = m k' \<longrightarrow> k = k')"
    by (auto simp: inj_on_def)
  finally show ?thesis .
qed

lemma card_lt_length_iff: "(card (set xs) < length xs) = (\<not> distinct xs)"
proof
  assume "card (set xs) < length xs"
  then show "\<not> distinct xs" using distinct_card [of xs] by auto
next
  assume "\<not> distinct xs"
  then have "card (set xs) \<noteq> length xs" using card_distinct [of xs] by blast
  then show "card (set xs) < length xs" using card_length [of xs] by linarith
qed

text \<open>
  C4. \<open>mappingCompleteness\<close> is a function of the mapping alone and returns only the two
  flags, so it changes no state. \<open>requiredOk\<close> holds exactly when \<open>postId\<close>, \<open>text\<close> and
  \<open>createdAt\<close> have a non-empty header. \<open>hasDuplicates\<close> holds exactly when there are
  fewer distinct non-empty chosen headers than non-empty chosen headers, that is, when
  two different keys have the same non-empty header. The mapping
  \<open>{postId: "A", text: "A", createdAt: "B"}\<close> has duplicates.
\<close>

theorem mappingCompleteness_spec:
  "requiredOk (mappingCompleteness m) =
     (m F_postId \<noteq> [] \<and> m F_text \<noteq> [] \<and> m F_createdAt \<noteq> [])
   \<and> hasDuplicates (mappingCompleteness m) = (card (set (chosen m)) < length (chosen m))
   \<and> hasDuplicates (mappingCompleteness m) = (\<exists>k k'. k \<noteq> k' \<and> m k \<noteq> [] \<and> m k = m k')
   \<and> hasDuplicates (mappingCompleteness
        (emptyMapping(F_postId := ''A'', F_text := ''A'', F_createdAt := ''B'')))"
proof -
  have dup: "hasDuplicates (mappingCompleteness m) = (\<not> distinct (chosen m))" for m
    using card_lt_length_iff [of "chosen m"]
    by (simp add: mappingCompleteness_def chosen_def Let_def card_set)
  have ex: "hasDuplicates (mappingCompleteness
        (emptyMapping(F_postId := ''A'', F_text := ''A'', F_createdAt := ''B'')))"
    by (simp add: mappingCompleteness_def Let_def EXPECTED_FIELDS_def emptyMapping_def)
  show ?thesis
    using dup [of m] ex card_lt_length_iff [of "chosen m"] distinct_chosen [of m]
    by (auto simp: mappingCompleteness_def)
qed

theorem mappingCompleteness_spec_witness:
  "requiredOk (mappingCompleteness
     (emptyMapping(F_postId := ''A'', F_text := ''A'', F_createdAt := ''B'')))
   \<and> hasDuplicates (mappingCompleteness
     (emptyMapping(F_postId := ''A'', F_text := ''A'', F_createdAt := ''B'')))
   \<and> \<not> hasDuplicates (mappingCompleteness
     (emptyMapping(F_postId := ''A'', F_text := ''C'', F_createdAt := ''B'')))"
  using mappingCompleteness_spec [of "emptyMapping(F_postId := ''A'', F_text := ''A'', F_createdAt := ''B'')"]
        mappingCompleteness_spec [of "emptyMapping(F_postId := ''A'', F_text := ''C'', F_createdAt := ''B'')"]
  by (simp add: chosen_def EXPECTED_FIELDS_def emptyMapping_def)

subsection \<open>Row Mapper\<close>

lemmas toNumber_defs =
  toNumber_def Number_s_def trim_def isWhiteSpace_def nonDecimalIntegerLiteral_def
  strDecimalLiteral_def strUnsignedDecimalLiteral_def Let_def isDigit_def exponentPart_def
  decimalDigits_def scale10_def digitsValue_def digitVal_def roundFinite_def isFinite_def
  negate_def

lemma toNumber_None: "toNumber None = None"
  by (simp add: toNumber_def)

lemma get_cell_own:
  "m k \<noteq> [] \<Longrightarrow> map_of row (m k) = Some v \<Longrightarrow>
   get_cell row m k = (if trim v = [] then None else Some (trim v))"
  by (simp add: get_cell_def getProperty_def Let_def)

lemma get_cell_None:
  "m k = [] \<or> (map_of row (m k) = None \<and> inheritedMember (m k) = None)
     \<or> (\<exists>v. map_of row (m k) = Some v \<and> trim v = [])
   \<Longrightarrow> get_cell row m k = None"
  by (auto simp: get_cell_def getProperty_def Let_def)

lemma isNull_mapCsvRow: "get_cell row m k = None \<Longrightarrow> isNull (mapCsvRow row m) k"
  by (cases k) (simp_all add: isNull_def mapCsvRow_def toNumber_None)

lemma toNumber_thousands: "toNumber (Some ''1,234'') = Some (Finite 1234)"
  by (simp add: toNumber_defs)

lemma toNumber_empty: "toNumber (Some []) = None"
  by (simp add: toNumber_defs)

lemma toNumber_letters: "toNumber (Some ''abc'') = None"
  by (simp add: toNumber_defs)

text \<open>
  C6. \<open>mapCsvRow\<close> makes a field null when its key has no chosen header or the cell is
  blank, and it tests the cell it read against null to do the same for a missing cell.
  That test misses the members a row inherits: for the header \<open>constructor\<close> and a row
  with no such cell the field is the text of a built-in function, and for the header
  \<open>__proto__\<close> (under which a plain object cannot hold a string cell) it is
  \<open>[object Object]\<close>, not null.
\<close>

theorem mapCsvRow_inherited_member:
  "map_of ([] :: CsvRow) ''constructor'' = None
   \<and> postId (mapCsvRow [] (emptyMapping(F_postId := ''constructor'')))
       = Some ''function Object() { [native code] }''
   \<and> map_of [(''id'', ''1'')] ''__proto__'' = None
   \<and> text_r (mapCsvRow [(''id'', ''1'')] (emptyMapping(F_postId := ''id'', F_text := ''__proto__'')))
       = Some ''[object Object]''
   \<and> \<not> isNull (mapCsvRow [(''id'', ''1'')]
            (emptyMapping(F_postId := ''id'', F_text := ''__proto__''))) F_text"
  by (simp add: mapCsvRow_def get_cell_def getProperty_def inheritedMember_def
      nativeFunction_def emptyMapping_def isNull_def trim_def isWhiteSpace_def)

subsection \<open>CSV Parser Adapter\<close>

text \<open>
  C8. When the parse reports errors, \<open>handleFile\<close> sets the parse error to the message of
  the first one and keeps no header and no row, whatever rows the result carries. When it
  reports none and no non-empty header is found, the parse error is the "No headers
  detected" message. When it reports none and there are headers, there is no parse
  error, the headers and rows are those of the result, and with no data rows the row
  sequence is empty. The \<open>error\<close> callback sets the parse error as well.
\<close>

theorem handleFile_spec:
  "(\<forall>e es. pr_errors result = e # es \<longrightarrow>
      st_parseError (handleFile name (Complete result) st) = Some (orDefault e ''CSV parse failed'')
      \<and> st_rows (handleFile name (Complete result) st) = []
      \<and> st_headers (handleFile name (Complete result) st) = [])
   \<and> (pr_errors result = [] \<and> parsedHeaders result = [] \<longrightarrow>
      st_parseError (handleFile name (Complete result) st) =
        Some ''No headers detected. Ensure the first row contains column names.''
      \<and> st_rows (handleFile name (Complete result) st) = []
      \<and> st_headers (handleFile name (Complete result) st) = [])
   \<and> (pr_errors result = [] \<and> parsedHeaders result \<noteq> [] \<longrightarrow>
      st_parseError (handleFile name (Complete result) st) = None
      \<and> st_headers (handleFile name (Complete result) st) = parsedHeaders result
      \<and> st_rows (handleFile name (Complete result) st) = parsedRows result)
   \<and> (pr_errors result = [] \<and> parsedHeaders result \<noteq> [] \<and> pr_data result = [] \<longrightarrow>
      st_parseError (handleFile name (Complete result) st) = None
      \<and> st_rows (handleFile name (Complete result) st) = [])
   \<and> st_parseError (handleFile name (ParseFailed msg) st) = Some (orDefault msg ''CSV parse failed'')
   \<and> st_rows (handleFile name (ParseFailed msg) st) = []"
  by (auto simp: handleFile_def onComplete_def resetState_def Let_def parsedRows_def
           split: list.splits)

theorem handleFile_spec_witness:
  "st_parseError (handleFile ''a.csv'' (Complete errResult) state0) = Some ''Too few fields''
   \<and> st_rows (handleFile ''a.csv'' (Complete errResult) state0) = []
   \<and> st_parseError (handleFile ''a.csv'' (Complete noHeaderResult) state0) =
        Some ''No headers detected. Ensure the first row contains column names.''
   \<and> st_parseError (handleFile ''a.csv'' (Complete okResult) state0) = None
   \<and> st_headers (handleFile ''a.csv'' (Complete okResult) state0) = [''Tweet id'', ''Text'']
   \<and> st_rows (handleFile ''a.csv'' (Complete okResult) state0) = []"
proof -
  have e: "pr_errors errResult = Some ''Too few fields'' # [None]"
    by (simp add: errResult_def)
  have n: "pr_errors noHeaderResult = [] \<and> parsedHeaders noHeaderResult = []"
    by (simp add: noHeaderResult_def parsedHeaders_def)
  have k: "pr_errors okResult = [] \<and> parsedHeaders okResult = [''Tweet id'', ''Text'']
      \<and> pr_data okResult = []"
    by (simp add: okResult_def parsedHeaders_def)
  show ?thesis
    using e n k handleFile_spec [of errResult "''a.csv''" state0 None]
      handleFile_spec [of noHeaderResult "''a.csv''" state0 None]
      handleFile_spec [of okResult "''a.csv''" state0 None]
    by (simp add: orDefault_def parsedRows_def)
qed

subsection \<open>Text Feature/Classifier\<close>

lemma startsWith_map: "startsWith s w \<Longrightarrow> startsWith (map f s) (map f w)"
  by (induction s w rule: startsWith.induct) auto

lemma includes_s_map: "includes_s s w \<Longrightarrow> includes_s (map f s) (map f w)"
proof (induction s)
  case Nil
  then show ?case by simp
next
  case (Cons c s)
  then show ?case using startsWith_map [of "c # s" w f] by auto
qed

lemma toLowerCase_thread: "toLowerCase ''thread'' = ''thread''"
  by code_simp

lemma includes_thread_lower: "includes_s body ''thread'' \<Longrightarrow> matchesStory body"
  using includes_s_map [of body "''thread''" toLower] toLowerCase_thread
  by (simp add: matchesStory_def toLowerCase_def)

lemma formatTag_chain: "formatTag body = lastMatchWins body"
  by (simp add: formatTag_def lastMatchWins_def tagRules_def Let_def matchesComparison_def
      matchesMilestone_def matchesQuestion_def matchesList_def matchesTip_def matchesStory_def
      matchesCta_def)

lemma formatTag_example: "formatTag ''Check this thread on how to grow followers?'' = ''story''"
  by code_simp

text \<open>
  C1. The format tag is the tag of the last rule that matches, with the rules taken in
  the order comparison, milestone, question, list, tip, story, cta, and \<open>standard\<close> when
  none matches. So a text with a question mark and the word "thread" (in any case) and
  no "click" or "link in" is tagged \<open>story\<close>, and so is
  \<open>"Check this thread on how to grow followers?"\<close>.
\<close>

theorem formatTag_spec:
  "formatTag body = lastMatchWins body
   \<and> formatTag body =
       (if matchesCta body then ''cta'' else if matchesStory body then ''story''
        else if matchesTip body then ''tip'' else if matchesList body then ''list''
        else if matchesQuestion body then ''question''
        else if matchesMilestone body then ''milestone''
        else if matchesComparison body then ''comparison'' else ''standard'')
   \<and> (matchesQuestion body \<and> matchesStory body \<and> \<not> matchesCta body \<longrightarrow> formatTag body = ''story'')
   \<and> (includes_s body ''?'' \<and> includes_s body ''thread'' \<and> \<not> matchesCta body
        \<longrightarrow> formatTag body = ''story'')
   \<and> formatTag ''Check this thread on how to grow followers?'' = ''story''"
proof -
  have c: "formatTag body =
       (if matchesCta body then ''cta'' else if matchesStory body then ''story''
        else if matchesTip body then ''tip'' else if matchesList body then ''list''
        else if matchesQuestion body then ''question''
        else if matchesMilestone body then ''milestone''
        else if matchesComparison body then ''comparison'' else ''standard'')"
    by (simp add: formatTag_def Let_def matchesComparison_def
      matchesMilestone_def matchesQuestion_def matchesList_def matchesTip_def matchesStory_def
      matchesCta_def)
  show ?thesis
    using c formatTag_chain [of body] includes_thread_lower [of body] formatTag_example
    by auto
qed

theorem formatTag_spec_witness:
  "matchesQuestion ''Check this thread on how to grow followers?''
   \<and> matchesStory ''Check this thread on how to grow followers?''
   \<and> matchesTip ''Check this thread on how to grow followers?''
   \<and> matchesMilestone ''Check this thread on how to grow followers?''
   \<and> \<not> matchesCta ''Check this thread on how to grow followers?''
   \<and> formatTag ''Check this thread on how to grow followers?'' = ''story''
   \<and> lastMatchWins ''Check this thread on how to grow followers?'' = ''story''"
proof -
  have h: "matchesQuestion ''Check this thread on how to grow followers?''
   \<and> matchesStory ''Check this thread on how to grow followers?''
   \<and> matchesTip ''Check this thread on how to grow followers?''
   \<and> matchesMilestone ''Check this thread on how to grow followers?''
   \<and> \<not> matchesCta ''Check this thread on how to grow followers?''"
    by code_simp
  show ?thesis
    using h formatTag_spec [of "''Check this thread on how to grow followers?''"]
    by metis
qed

subsection \<open>Header Normalizer\<close>

text \<open>
  C7. \<open>norm\<close> trims and collapses white space before it turns underscores and hyphens
  into spaces, so the spaces that step makes are neither collapsed nor trimmed: the
  header \<open>"Likes - Total"\<close> becomes \<open>"likes   total"\<close> with three spaces, and a second
  pass gives \<open>"likes total"\<close>; \<open>"_id"\<close> becomes \<open>" id"\<close> with a leading space. The
  function is not idempotent and its result is not always trimmed and collapsed.
\<close>

theorem norm_h_not_idempotent:
  "norm_h ''Likes - Total'' = ''likes   total''
   \<and> norm_h (norm_h ''Likes - Total'') = ''likes total''
   \<and> norm_h ''_id'' = '' id''
   \<and> norm_h (norm_h ''_id'') = ''id''"
  by code_simp

subsection \<open>Field Suggester\<close>

lemma find_SomeD: "List.find P xs = Some x \<Longrightarrow> x \<in> set xs \<and> P x"
  by (auto simp: find_Some_iff)

lemma find_NoneD: "List.find P xs = None \<Longrightarrow> \<forall>x \<in> set xs. \<not> P x"
  using find_None_iff [of P xs] by blast

lemma firstHit_None:
  "(firstHit P ws hs = None) = (\<forall>w \<in> set ws. \<forall>h \<in> set hs. \<not> P w h)"
proof (induction ws)
  case Nil
  then show ?case by simp
next
  case (Cons w ws)
  show ?case
  proof (cases "List.find (P w) hs")
    case None
    then show ?thesis using Cons.IH find_NoneD [OF None] by simp
  next
    case (Some hit)
    then show ?thesis using find_SomeD [OF Some] by auto
  qed
qed

lemma firstHit_Some:
  "firstHit P ws hs = Some r \<Longrightarrow>
   \<exists>i j. i < length ws \<and> j < length hs \<and> r = fst (hs ! j) \<and> P (ws ! i) (hs ! j)
     \<and> (\<forall>i' < i. \<forall>h \<in> set hs. \<not> P (ws ! i') h)
     \<and> (\<forall>j' < j. \<not> P (ws ! i) (hs ! j'))"
proof (induction ws)
  case Nil
  then show ?case by simp
next
  case (Cons w ws)
  show ?case
  proof (cases "List.find (P w) hs")
    case (Some hit)
    then obtain j where j: "j < length hs" "P w (hs ! j)" "hit = hs ! j" "\<forall>j' < j. \<not> P w (hs ! j')"
      by (auto simp: find_Some_iff)
    have r: "r = fst hit" using Cons.prems Some by simp
    show ?thesis
      apply (rule exI [of _ 0], rule exI [of _ j])
      using j r by simp
  next
    case None
    then have no: "\<forall>h \<in> set hs. \<not> P w h" by (rule find_NoneD)
    from None Cons.prems have "firstHit P ws hs = Some r" by simp
    from Cons.IH [OF this] obtain i j where ij:
      "i < length ws" "j < length hs" "r = fst (hs ! j)" "P (ws ! i) (hs ! j)"
      "\<forall>i' < i. \<forall>h \<in> set hs. \<not> P (ws ! i') h" "\<forall>j' < j. \<not> P (ws ! i) (hs ! j')"
      by blast
    have before: "\<forall>i' < Suc i. \<forall>h \<in> set hs. \<not> P ((w # ws) ! i') h"
    proof (intro allI impI)
      fix i' assume "i' < Suc i"
      then show "\<forall>h \<in> set hs. \<not> P ((w # ws) ! i') h"
        using no ij(5) by (cases i') auto
    qed
    show ?thesis
      apply (rule exI [of _ "Suc i"], rule exI [of _ j])
      using ij before by simp
  qed
qed

lemma firstHit_nHeaders_None:
  "(firstHit (\<lambda>w h. rel w (snd h)) wanted (map (\<lambda>h. (h, norm_h h)) hdrs) = None)
   = (\<not> anyMatch rel wanted hdrs)"
  by (auto simp: firstHit_None anyMatch_def)

lemma firstHit_nHeaders_Some:
  assumes "firstHit (\<lambda>w h. rel w (snd h)) wanted (map (\<lambda>h. (h, norm_h h)) hdrs) = Some r"
  shows "firstIn rel wanted hdrs r"
proof -
  from firstHit_Some [OF assms] obtain i j where ij:
    "i < length wanted" "j < length hdrs"
    "r = fst (map (\<lambda>h. (h, norm_h h)) hdrs ! j)"
    "rel (wanted ! i) (snd (map (\<lambda>h. (h, norm_h h)) hdrs ! j))"
    "\<forall>i' < i. \<forall>h \<in> set (map (\<lambda>h. (h, norm_h h)) hdrs). \<not> rel (wanted ! i') (snd h)"
    "\<forall>j' < j. \<not> rel (wanted ! i) (snd (map (\<lambda>h. (h, norm_h h)) hdrs ! j'))"
    by auto
  have "\<forall>j' < j. \<not> rel (wanted ! i) (norm_h (hdrs ! j'))"
    using ij(2) ij(6) by auto
  moreover have "\<forall>i' < i. \<forall>h \<in> set hdrs. \<not> rel (wanted ! i') (norm_h h)"
    using ij(5) by auto
  ultimately show ?thesis
    unfolding firstIn_def using ij(1-4) by auto
qed

lemma firstIn_in_set: "firstIn rel wanted hdrs r \<Longrightarrow> r \<in> set hdrs"
  by (auto simp: firstIn_def)

lemma candidates_normal_all:
  "list_all (\<lambda>k. map norm_h (candidates k) = candidates k) EXPECTED_FIELDS"
  by code_simp

lemma candidates_normal: "map norm_h (candidates field) = candidates field"
  using candidates_normal_all set_EXPECTED_FIELDS by (simp add: list_all_iff)

lemma exactMatch_rel: "exactMatch = (\<lambda>w h. exactRel w (snd h))"
  by (simp add: exactMatch_def exactRel_def fun_eq_iff)

lemma containsMatch_rel: "containsMatch = (\<lambda>w h. containsRel w (snd h))"
  by (simp add: containsMatch_def containsRel_def fun_eq_iff)

text \<open>
  C5. Every listed synonym is its own normal form. The suggestion is a header of the
  list or the empty string. If some header's normal form equals some synonym, the
  suggestion is the first header that equals the first such synonym in the listed order
  (the order of the synonyms comes before the order of the headers). If none does and
  some header contains a synonym or is contained in one, the suggestion is chosen the
  same way among those. Otherwise it is the empty string.
\<close>

theorem suggestedHeaderForField_spec:
  "map norm_h (candidates field) = candidates field
   \<and> (suggestedHeaderForField field hdrs \<in> set hdrs \<or> suggestedHeaderForField field hdrs = [])
   \<and> (anyMatch exactRel (candidates field) hdrs \<longrightarrow>
        firstIn exactRel (candidates field) hdrs (suggestedHeaderForField field hdrs))
   \<and> (\<not> anyMatch exactRel (candidates field) hdrs \<and> anyMatch containsRel (candidates field) hdrs
        \<longrightarrow> firstIn containsRel (candidates field) hdrs (suggestedHeaderForField field hdrs))
   \<and> (\<not> anyMatch exactRel (candidates field) hdrs \<and> \<not> anyMatch containsRel (candidates field) hdrs
        \<longrightarrow> suggestedHeaderForField field hdrs = [])"
proof -
  let ?nH = "map (\<lambda>h. (h, norm_h h)) hdrs"
  let ?w = "candidates field"
  let ?e = "firstHit (\<lambda>w h. exactRel w (snd h)) ?w ?nH"
  let ?c = "firstHit (\<lambda>w h. containsRel w (snd h)) ?w ?nH"
  have s: "suggestedHeaderForField field hdrs =
      (case ?e of Some r \<Rightarrow> r | None \<Rightarrow> (case ?c of Some r \<Rightarrow> r | None \<Rightarrow> []))"
    unfolding suggestedHeaderForField_def Let_def candidates_normal exactMatch_rel
      containsMatch_rel by simp
  show ?thesis
  proof (cases ?e)
    case (Some r)
    then have f: "firstIn exactRel ?w hdrs r" by (rule firstHit_nHeaders_Some)
    have a: "anyMatch exactRel ?w hdrs"
      using Some firstHit_nHeaders_None [of exactRel ?w hdrs] by simp
    show ?thesis
      using s Some f a firstIn_in_set [OF f] candidates_normal [of field] by simp
  next
    case None
    then have na: "\<not> anyMatch exactRel ?w hdrs"
      using firstHit_nHeaders_None [of exactRel ?w hdrs] by simp
    show ?thesis
    proof (cases ?c)
      case (Some r)
      then have f: "firstIn containsRel ?w hdrs r" by (rule firstHit_nHeaders_Some)
      have a: "anyMatch containsRel ?w hdrs"
        using Some firstHit_nHeaders_None [of containsRel ?w hdrs] by simp
      show ?thesis
        using s None Some f a na firstIn_in_set [OF f] candidates_normal [of field] by simp
    next
      case None2: None
      then have nc: "\<not> anyMatch containsRel ?w hdrs"
        using firstHit_nHeaders_None [of containsRel ?w hdrs] by simp
      show ?thesis
        using s None None2 na nc candidates_normal [of field] by simp
    qed
  qed
qed

theorem suggestedHeaderForField_spec_witness:
  "anyMatch exactRel (candidates F_postId) [''Tweet ID'', ''id'', ''Post-Id'']
   \<and> suggestedHeaderForField F_postId [''Tweet ID'', ''id'', ''Post-Id''] = ''Post-Id''
   \<and> firstIn exactRel (candidates F_postId) [''Tweet ID'', ''id'', ''Post-Id''] ''Post-Id''
   \<and> \<not> anyMatch exactRel (candidates F_likes) [''-'', ''Total Likes!'']
   \<and> anyMatch containsRel (candidates F_likes) [''-'', ''Total Likes!'']
   \<and> firstIn containsRel (candidates F_likes) [''-'', ''Total Likes!''] ''Total Likes!''
   \<and> \<not> anyMatch containsRel (candidates F_likes) [''xyz'']
   \<and> suggestedHeaderForField F_likes [''xyz''] = []"
proof -
  have w1: "anyMatch exactRel (candidates F_postId) [''Tweet ID'', ''id'', ''Post-Id'']"
    by code_simp
  have r1: "suggestedHeaderForField F_postId [''Tweet ID'', ''id'', ''Post-Id''] = ''Post-Id''"
    by code_simp
  have w2: "\<not> anyMatch exactRel (candidates F_likes) [''-'', ''Total Likes!'']
      \<and> anyMatch containsRel (candidates F_likes) [''-'', ''Total Likes!'']"
    by code_simp
  have r2: "suggestedHeaderForField F_likes [''-'', ''Total Likes!''] = ''Total Likes!''"
    by code_simp
  have w3: "\<not> anyMatch exactRel (candidates F_likes) [''xyz'']
      \<and> \<not> anyMatch containsRel (candidates F_likes) [''xyz'']"
    by code_simp
  show ?thesis
    using w1 r1 w2 r2 w3
      suggestedHeaderForField_spec [of F_postId "[''Tweet ID'', ''id'', ''Post-Id'']"]
      suggestedHeaderForField_spec [of F_likes "[''-'', ''Total Likes!'']"]
      suggestedHeaderForField_spec [of F_likes "[''xyz'']"]
    by metis
qed

subsection \<open>Import Orchestrator\<close>

lemma sameButPosts_refl: "sameButPosts w w"
  by (simp add: sameButPosts_def)

lemma sameButPosts_trans: "sameButPosts a b \<Longrightarrow> sameButPosts b c \<Longrightarrow> sameButPosts a c"
  by (simp add: sameButPosts_def)

lemma postUpsert_frame: "sameButPosts w (snd (postUpsert uid xid t c f w))"
  by (simp add: postUpsert_def sameButPosts_def Let_def split: option.splits)

lemma postUpsert_frame': "postUpsert uid xid t c f w = (p, w') \<Longrightarrow> sameButPosts w w'"
  using postUpsert_frame [of w uid xid t c f] by simp

lemma processRow_frame: "sameButPosts (fst st) (fst (snd (processRow ev user imp i row st)))"
  by (auto simp: processRow_def Let_def sameButPosts_refl split: option.splits prod.splits
      dest: postUpsert_frame')

lemma processRow_ok:
  assumes "throws ev (PostUpsert i) = None"
  shows "processRow ev user imp i row (w, sn) =
     (if accepted ev row
      then (None, (snd (rowUpsert ev user row w),
                   sn @ [snapshotOf imp row (p_id (fst (rowUpsert ev user row w)))]))
      else (None, (w, sn)))"
  using assms
  by (auto simp: processRow_def accepted_def rowUpsert_def rowText_def rowKey_def
      rowCreated_def snapshotOf_def Let_def split: option.splits prod.splits)

lemma processRow_step:
  "noPostUpsertThrows ev \<Longrightarrow> processRow ev user imp i row st = (None, stepRow ev user imp st row)"
  using processRow_ok [of ev i user imp row "fst st" "snd st"]
  by (simp add: stepRow_def noPostUpsertThrows_def)

lemma runBatch_frame: "sameButPosts (fst st) (fst (snd (runBatch ev user imp i batch st)))"
proof (induction batch arbitrary: i st)
  case Nil
  then show ?case by (simp add: sameButPosts_refl)
next
  case (Cons row batch)
  obtain r st' where p: "processRow ev user imp i row st = (r, st')"
    by (cases "processRow ev user imp i row st")
  obtain rs st'' where q: "runBatch ev user imp (Suc i) batch st' = (rs, st'')"
    by (cases "runBatch ev user imp (Suc i) batch st'")
  have "sameButPosts (fst st) (fst st')"
    using processRow_frame [of st ev user imp i row] p by simp
  moreover have "sameButPosts (fst st') (fst st'')"
    using Cons.IH [where i = "Suc i" and st = st'] q by simp
  ultimately show ?case
    using p q by (simp add: sameButPosts_trans [of "fst st" "fst st'" "fst st''"])
qed

lemma runBatch_ok:
  "noPostUpsertThrows ev \<Longrightarrow>
   runBatch ev user imp i batch st = (None, foldl (stepRow ev user imp) st batch)"
  by (induction batch arbitrary: i st) (simp_all add: processRow_step)

lemma importLoop_ok:
  "noPostUpsertThrows ev \<Longrightarrow>
   importLoop ev user imp rs i st = (None, foldl (stepRow ev user imp) st (drop i rs))"
proof (induction ev user imp rs i st rule: importLoop.induct)
  case (1 ev user imp rs i st)
  show ?case
  proof (cases "i < length rs")
    case True
    let ?b = "take BATCH_SIZE (drop i rs)"
    let ?st' = "foldl (stepRow ev user imp) st ?b"
    have b: "runBatch ev user imp i ?b st = (None, ?st')"
      using runBatch_ok [OF "1.prems"] by simp
    have ih: "importLoop ev user imp rs (i + BATCH_SIZE) ?st' =
        (None, foldl (stepRow ev user imp) ?st' (drop (i + BATCH_SIZE) rs))"
      using "1.IH" [OF True b [symmetric] refl "1.prems"] by simp
    have "drop (i + BATCH_SIZE) rs = drop BATCH_SIZE (drop i rs)"
      by (simp add: add.commute)
    then have "drop i rs = ?b @ drop (i + BATCH_SIZE) rs"
      by (metis append_take_drop_id)
    then have "foldl (stepRow ev user imp) st (drop i rs) =
        foldl (stepRow ev user imp) ?st' (drop (i + BATCH_SIZE) rs)"
      by (metis foldl_append)
    then show ?thesis
      using True b ih by (subst importLoop.simps) simp
  next
    case False
    then show ?thesis by (subst importLoop.simps) simp
  qed
qed

lemma importLoop_frame: "sameButPosts (fst st) (fst (snd (importLoop ev user imp rs i st)))"
proof (induction ev user imp rs i st rule: importLoop.induct)
  case (1 ev user imp rs i st)
  show ?case
  proof (cases "i < length rs")
    case True
    obtain r st' where b: "runBatch ev user imp i (take BATCH_SIZE (drop i rs)) st = (r, st')"
      by (cases "runBatch ev user imp i (take BATCH_SIZE (drop i rs)) st")
    have f: "sameButPosts (fst st) (fst st')"
      using runBatch_frame [of st ev user imp i "take BATCH_SIZE (drop i rs)"] b by simp
    show ?thesis
    proof (cases r)
      case None
      have "sameButPosts (fst st') (fst (snd (importLoop ev user imp rs (i + BATCH_SIZE) st')))"
        using "1.IH" [OF True b [symmetric] None] .
      then show ?thesis
        using True b None f
        by (subst importLoop.simps) (auto intro: sameButPosts_trans)
    next
      case (Some e)
      then show ?thesis
        using True b f by (subst importLoop.simps) simp
    qed
  next
    case False
    then show ?thesis by (subst importLoop.simps) (simp add: sameButPosts_refl)
  qed
qed

lemma foldl_stepRow_snaps:
  "map clearPost (snd (foldl (stepRow ev user imp) st rs)) =
   map clearPost (snd st) @ map (\<lambda>r. snapshotOf imp r 0) (filter (accepted ev) rs)"
  by (induction rs arbitrary: st) (simp_all add: stepRow_def clearPost_def snapshotOf_def)

lemma foldl_stepRow_frame: "sameButPosts (fst st) (fst (foldl (stepRow ev user imp) st rs))"
proof (induction rs arbitrary: st)
  case Nil
  then show ?case by (simp add: sameButPosts_refl)
next
  case (Cons r rs)
  have "sameButPosts (fst st) (fst (stepRow ev user imp st r))"
    by (simp add: stepRow_def rowUpsert_def postUpsert_frame sameButPosts_refl)
  then show ?case
    using Cons.IH [of "stepRow ev user imp st r"] by (auto intro: sameButPosts_trans)
qed

lemma processRows_ok:
  "noPostUpsertThrows ev \<Longrightarrow>
   processRows ev user imp rs w =
     (Inr (snd (foldl (stepRow ev user imp) (w, []) rs)),
      fst (foldl (stepRow ev user imp) (w, []) rs))"
  by (simp add: processRows_def importLoop_ok)

lemma createMany_step:
  "throws ev MetricsSnapshotCreateMany = None \<Longrightarrow>
   (if sn \<noteq> [] then attempt ev MetricsSnapshotCreateMany (createMany sn)
    else (\<lambda>w. (Inr (), w))) w
   = (Inr (), w\<lparr> metricsSnapshots := metricsSnapshots w @ sn \<rparr>)"
  by (simp add: attempt_def createMany_def)

lemma importWrites_ok:
  assumes "noWriteThrows ev"
  shows "importWrites ev d w = (Inr (fst (writesDone ev d w)), snd (writesDone ev d w))"
proof -
  have n: "noPostUpsertThrows ev" and c: "throws ev MetricsSnapshotCreateMany = None"
    and u: "throws ev UserUpsert = None" and i: "throws ev ImportCreate = None"
    using assms by (simp_all add: noWriteThrows_def)
  show ?thesis
    unfolding importWrites_def writesDone_def Let_def andThen_def
    by (simp add: attempt_def u i processRows_ok [OF n] createMany_step [OF c] fileNameOf_def
        split: prod.splits)
qed

lemma recompute_tables: "tablesEq w (snd (recomputeAnalytics ev w))"
  by (simp add: recomputeAnalytics_def Let_def attempt_def consoleLog_def tablesEq_def
      recomputeRunCreate_def recomputeRunUpdate_def split: option.splits prod.splits sum.splits)

lemma tablesEq_refl: "tablesEq w w"
  by (simp add: tablesEq_def)

lemma tablesEq_trans: "tablesEq a b \<Longrightarrow> tablesEq b c \<Longrightarrow> tablesEq a c"
  by (simp add: tablesEq_def)

lemma tablesEq_consoleLog: "tablesEq w (consoleLog l w)"
  by (simp add: tablesEq_def consoleLog_def)

lemma recompute_tables': "recomputeAnalytics ev w = (r, w') \<Longrightarrow> tablesEq w w'"
  using recompute_tables [of w ev] by simp

lemma afterWrites_tables:
  "tablesEq wm
     (snd (andThen (recomputeAnalytics ev) (\<lambda>res.
           andThen (attempt ev (RevalidatePath ''/'') (\<lambda>w. ((), w))) (\<lambda>u2.
           andThen (attempt ev (RevalidatePath ''/analytics'') (\<lambda>w. ((), w))) (\<lambda>u3 w.
             (Inr (i_id imp), consoleLog (ImportSuccess n) w)))) wm))"
proof -
  obtain r w' where rc: "recomputeAnalytics ev wm = (r, w')"
    by (cases "recomputeAnalytics ev wm")
  have t: "tablesEq wm w'" using recompute_tables' [OF rc] .
  have t2: "tablesEq wm (consoleLog l w')" for l
    using t tablesEq_consoleLog [of w' l] by (rule tablesEq_trans)
  show ?thesis
    using rc t t2
    by (auto simp: andThen_def attempt_def split: sum.splits option.splits)
qed

lemma save_tables: "tablesEq (snd (importWrites ev d w)) (snd (saveImportedPosts ev d w))"
proof (cases "importWrites ev d w")
  case (Pair r wm)
  show ?thesis
  proof (cases r)
    case (Inl e)
    then show ?thesis
      using Pair tablesEq_consoleLog [of wm "ImportErrorLine e"]
      by (simp add: saveImportedPosts_def importBody_def andThen_def)
  next
    case (Inr x)
    obtain imp sn where x: "x = (imp, sn)" by (cases x)
    let ?k = "andThen (recomputeAnalytics ev) (\<lambda>res.
           andThen (attempt ev (RevalidatePath ''/'') (\<lambda>w. ((), w))) (\<lambda>u2.
           andThen (attempt ev (RevalidatePath ''/analytics'') (\<lambda>w. ((), w))) (\<lambda>u3 w.
             (Inr (i_id imp), consoleLog (ImportSuccess (length sn)) w))))"
    have b: "importBody ev d w = ?k wm"
      using Pair Inr x by (simp add: importBody_def andThen_def)
    have t: "tablesEq wm (snd (?k wm))" by (rule afterWrites_tables)
    obtain r' w' where k: "?k wm = (r', w')" by (cases "?k wm")
    have "tablesEq wm w'" using t k by simp
    then have "tablesEq wm (snd (saveImportedPosts ev d w))"
      using b k tablesEq_consoleLog [of w']
      by (cases r') (auto simp: saveImportedPosts_def intro: tablesEq_trans)
    then show ?thesis using Pair by simp
  qed
qed

lemma userUpsert_frame:
  "posts (snd (userUpsert w)) = posts w \<and> imports_t (snd (userUpsert w)) = imports_t w
   \<and> metricsSnapshots (snd (userUpsert w)) = metricsSnapshots w
   \<and> recomputeRuns (snd (userUpsert w)) = recomputeRuns w
   \<and> console (snd (userUpsert w)) = console w
   \<and> next_id w \<le> next_id (snd (userUpsert w))"
  by (simp add: userUpsert_def Let_def split: option.splits)

lemma importCreate_frame:
  "posts (snd (importCreate u f n t w)) = posts w
   \<and> users (snd (importCreate u f n t w)) = users w
   \<and> imports_t (snd (importCreate u f n t w)) = imports_t w @ [fst (importCreate u f n t w)]
   \<and> metricsSnapshots (snd (importCreate u f n t w)) = metricsSnapshots w
   \<and> recomputeRuns (snd (importCreate u f n t w)) = recomputeRuns w
   \<and> console (snd (importCreate u f n t w)) = console w
   \<and> next_id (snd (importCreate u f n t w)) = Suc (next_id w)
   \<and> i_id (fst (importCreate u f n t w)) = next_id w
   \<and> row_count (fst (importCreate u f n t w)) = n
   \<and> imported_at (fst (importCreate u f n t w)) = t
   \<and> filename (fst (importCreate u f n t w)) = f"
  by (simp add: importCreate_def Let_def)

lemma writesDone_facts:
  assumes "writesDone ev d w = ((imp, sn), wm)"
  shows "metricsSnapshots wm = metricsSnapshots w @ sn"
    and "map clearPost sn = map (\<lambda>r. snapshotOf imp r 0) (filter (accepted ev) (d_rows d))"
    and "imports_t wm = imports_t w @ [imp]"
    and "row_count imp = length (d_rows d)"
    and "imported_at imp = importedAt ev"
    and "recomputeRuns wm = recomputeRuns w"
    and "console wm = console w @ [ImportStarting (length (d_rows d)) (d_fileName d)]"
    and "next_id w \<le> i_id imp" and "i_id imp < next_id wm"
proof -
  let ?w1 = "consoleLog (ImportStarting (length (d_rows d)) (d_fileName d)) w"
  let ?user = "fst (userUpsert ?w1)"
  let ?w2 = "snd (userUpsert ?w1)"
  let ?ic = "importCreate (u_id ?user) (fileNameOf d) (length (d_rows d)) (importedAt ev) ?w2"
  let ?st = "foldl (stepRow ev ?user (fst ?ic)) (snd ?ic, []) (d_rows d)"
  have imp: "imp = fst ?ic" and sn: "sn = snd ?st"
    and wm: "wm = (fst ?st)\<lparr> metricsSnapshots := metricsSnapshots (fst ?st) @ snd ?st \<rparr>"
    using assms unfolding writesDone_def Let_def by auto
  have f: "sameButPosts (snd ?ic) (fst ?st)"
    using foldl_stepRow_frame [of "(snd ?ic, [])" ev ?user "fst ?ic" "d_rows d"] by simp
  have u: "imports_t ?w2 = imports_t w" "metricsSnapshots ?w2 = metricsSnapshots w"
    "recomputeRuns ?w2 = recomputeRuns w"
    "console ?w2 = console w @ [ImportStarting (length (d_rows d)) (d_fileName d)]"
    "next_id w \<le> next_id ?w2"
    using userUpsert_frame [of ?w1] by (simp_all add: consoleLog_def)
  note c = importCreate_frame [of "u_id ?user" "fileNameOf d" "length (d_rows d)" "importedAt ev" ?w2]
  show "metricsSnapshots wm = metricsSnapshots w @ sn"
    using f u c by (simp add: wm sn sameButPosts_def)
  show "map clearPost sn = map (\<lambda>r. snapshotOf imp r 0) (filter (accepted ev) (d_rows d))"
    using foldl_stepRow_snaps [of ev ?user "fst ?ic" "(snd ?ic, [])" "d_rows d"]
    by (simp add: sn imp)
  show "imports_t wm = imports_t w @ [imp]"
    using f u c by (simp add: wm imp sameButPosts_def)
  show "row_count imp = length (d_rows d)" using c by (simp add: imp)
  show "imported_at imp = importedAt ev" using c by (simp add: imp)
  show "recomputeRuns wm = recomputeRuns w" using f u c by (simp add: wm sameButPosts_def)
  show "console wm = console w @ [ImportStarting (length (d_rows d)) (d_fileName d)]"
    using f u c by (simp add: wm sameButPosts_def)
  show "next_id w \<le> i_id imp" using u c by (simp add: imp)
  show "i_id imp < next_id wm" using f c by (simp add: wm imp sameButPosts_def)
qed

lemma save_ok:
  assumes "noWriteThrows ev" and "writesDone ev d w = ((imp, sn), wm)"
    and "recomputeAnalytics ev wm = (Inr r, w')"
    and "throws ev (RevalidatePath ''/'') = None"
    and "throws ev (RevalidatePath ''/analytics'') = None"
  shows "saveImportedPosts ev d w =
     (Success (i_id imp), consoleLog (ImportSuccess (length sn)) w')"
  using assms importWrites_ok [OF assms(1), of d w]
  by (simp add: saveImportedPosts_def importBody_def andThen_def attempt_def)

lemma save_recompute_throws:
  assumes "noWriteThrows ev" and "writesDone ev d w = ((imp, sn), wm)"
    and "recomputeAnalytics ev wm = (Inl e, w')"
  shows "saveImportedPosts ev d w = (Failure (messageOf e), consoleLog (ImportErrorLine e) w')"
  using assms importWrites_ok [OF assms(1), of d w]
  by (simp add: saveImportedPosts_def importBody_def andThen_def attempt_def)

lemma find_filter_hd:
  "List.find P xs = (case filter P xs of [] \<Rightarrow> None | x # ys \<Rightarrow> Some x)"
  by (induction xs) auto

lemma rowUpsert_fields:
  "fieldsFrom ev row (fst (rowUpsert ev user row w))"
  by (simp add: rowUpsert_def postUpsert_def fieldsFrom_def writeFeatures_def derivedFeatures_def
      Let_def find_Some_iff split: option.splits) (metis nth_mem)

lemma rowUpsert_all_fields:
  "q \<in> set (posts (snd (rowUpsert ev user row w))) \<Longrightarrow> x_post_id q = rowKey row
   \<Longrightarrow> fieldsFrom ev row q"
  by (auto simp: rowUpsert_def postUpsert_def fieldsFrom_def writeFeatures_def
      derivedFeatures_def Let_def find_None_iff split: option.splits if_splits)

lemma rowUpsert_mem:
  "fst (rowUpsert ev user row w) \<in> set (posts (snd (rowUpsert ev user row w)))"
proof (cases "List.find (\<lambda>p. x_post_id p = rowKey row) (posts w)")
  case None
  then show ?thesis by (simp add: rowUpsert_def postUpsert_def Let_def)
next
  case (Some p)
  then have "p \<in> set (posts w) \<and> x_post_id p = rowKey row"
    by (auto simp: find_Some_iff)
  then show ?thesis
    using Some by (auto simp: rowUpsert_def postUpsert_def Let_def image_iff intro!: bexI [of _ p])
qed

lemma rowUpsert_unique:
  assumes "length (postsWith (rowKey row) w) \<le> 1"
  shows "postsWith (rowKey row) (snd (rowUpsert ev user row w)) = [fst (rowUpsert ev user row w)]"
proof (cases "postsWith (rowKey row) w")
  case Nil
  then have "List.find (\<lambda>p. x_post_id p = rowKey row) (posts w) = None"
    by (simp add: find_filter_hd postsWith_def)
  then show ?thesis
    using Nil by (simp add: rowUpsert_def postUpsert_def Let_def postsWith_def)
next
  case (Cons p ps)
  then have ps: "ps = []" using assms by simp
  have f: "List.find (\<lambda>p. x_post_id p = rowKey row) (posts w) = Some p"
    using Cons by (simp add: find_filter_hd postsWith_def)
  have "filter (\<lambda>q. x_post_id q = k) (map (\<lambda>q. if x_post_id q = k then g q else q) xs)
      = map g (filter (\<lambda>q. x_post_id q = k) xs)"
    if "\<And>q. x_post_id (g q) = x_post_id q" for k g and xs :: "post_rec list"
    using that by (induction xs) auto
  note m = this [of "writeFeatures (rowText row) (rowCreated ev row) (derivedFeatures (rowText row))"
      "rowKey row" "posts w"]
  have "x_post_id (writeFeatures a b c q) = x_post_id q" for a b c q
    by (simp add: writeFeatures_def)
  then show ?thesis
    using Cons ps f m by (simp add: rowUpsert_def postUpsert_def Let_def postsWith_def)
qed

lemma rowUpsert_keeps_id:
  assumes "postsWith (rowKey row) w = [p0]"
  shows "p_id (fst (rowUpsert ev user row w)) = p_id p0"
proof -
  have f: "List.find (\<lambda>p. x_post_id p = rowKey row) (posts w) = Some p0"
    using assms by (simp add: find_filter_hd postsWith_def)
  show ?thesis
    using f by (simp add: rowUpsert_def postUpsert_def Let_def writeFeatures_def)
qed

lemma postsWith_cong: "posts w = posts w' \<Longrightarrow> postsWith k w = postsWith k w'"
  by (simp add: postsWith_def)

lemma single_import:
  assumes nt: "noWriteThrows ev" and rs: "d_rows d = [row]" and acc: "accepted ev row"
    and w': "w' = snd (saveImportedPosts ev d w)"
  shows "\<exists>imp p.
      metricsSnapshots w' = metricsSnapshots w @ [snapshotOf imp row (p_id p)]
      \<and> imports_t w' = imports_t w @ [imp] \<and> next_id w \<le> i_id imp \<and> i_id imp < next_id w'
      \<and> row_count imp = 1
      \<and> p \<in> set (posts w') \<and> fieldsFrom ev row p
      \<and> (\<forall>q \<in> set (posts w'). x_post_id q = rowKey row \<longrightarrow> fieldsFrom ev row q)
      \<and> (length (postsWith (rowKey row) w) \<le> 1 \<longrightarrow> postsWith (rowKey row) w' = [p])
      \<and> (\<forall>p0. postsWith (rowKey row) w = [p0] \<longrightarrow> p_id p = p_id p0)"
proof -
  obtain imp sn wm where wd: "writesDone ev d w = ((imp, sn), wm)"
    by (cases "writesDone ev d w") auto
  let ?w1 = "consoleLog (ImportStarting (length (d_rows d)) (d_fileName d)) w"
  let ?user = "fst (userUpsert ?w1)"
  let ?w2 = "snd (userUpsert ?w1)"
  let ?ic = "importCreate (u_id ?user) (fileNameOf d) (length (d_rows d)) (importedAt ev) ?w2"
  let ?w3 = "snd ?ic"
  let ?up = "rowUpsert ev ?user row ?w3"
  have imp: "imp = fst ?ic" and sn: "sn = [snapshotOf imp row (p_id (fst ?up))]"
    and wm: "posts wm = posts (snd ?up)"
    using wd rs acc unfolding writesDone_def Let_def by (auto simp: stepRow_def)
  have p3: "posts ?w3 = posts w"
    using userUpsert_frame [of ?w1]
      importCreate_frame [of "u_id ?user" "fileNameOf d" "length (d_rows d)" "importedAt ev" ?w2]
    by (simp add: consoleLog_def)
  have iw: "importWrites ev d w = (Inr (imp, sn), wm)"
    using importWrites_ok [OF nt, of d w] wd by simp
  have te: "tablesEq wm w'"
    using save_tables [of ev d w] iw w' by simp
  note f = writesDone_facts [OF wd]
  have pw: "postsWith k w' = postsWith k (snd ?up)" for k
    using te wm by (simp add: postsWith_def tablesEq_def)
  have pw0: "postsWith k ?w3 = postsWith k w" for k
    using p3 by (simp add: postsWith_def)
  have a: "metricsSnapshots w' = metricsSnapshots w @ [snapshotOf imp row (p_id (fst ?up))]"
    using te f(1) sn by (simp add: tablesEq_def)
  have b: "imports_t w' = imports_t w @ [imp]" using te f(3) by (simp add: tablesEq_def)
  have c: "next_id w \<le> i_id imp" "i_id imp < next_id w'"
    using te f(8) f(9) by (simp_all add: tablesEq_def)
  have c': "row_count imp = 1" using f(4) rs by simp
  have e: "fst ?up \<in> set (posts w')"
    using rowUpsert_mem [of ev ?user row ?w3] te wm by (simp add: tablesEq_def)
  have g: "fieldsFrom ev row (fst ?up)" by (rule rowUpsert_fields)
  have h: "\<forall>q \<in> set (posts w'). x_post_id q = rowKey row \<longrightarrow> fieldsFrom ev row q"
    using rowUpsert_all_fields [of _ ev ?user row ?w3] te wm by (simp add: tablesEq_def)
  have i: "length (postsWith (rowKey row) w) \<le> 1 \<longrightarrow> postsWith (rowKey row) w' = [fst ?up]"
    using rowUpsert_unique [of row ?w3 ev ?user] pw [of "rowKey row"] pw0 [of "rowKey row"]
    by simp
  have j: "\<forall>p0. postsWith (rowKey row) w = [p0] \<longrightarrow> p_id (fst ?up) = p_id p0"
    using rowUpsert_keeps_id [of row ?w3 _ ev ?user] pw0 [of "rowKey row"] by simp
  show ?thesis
    apply (rule exI [of _ imp], rule exI [of _ "fst ?up"])
    using a b c c' e g h i j by blast
qed

lemma d_rows_dataOf: "d_rows (dataOf rs) = rs"
  by (simp add: dataOf_def)

lemma recompute_no_throw:
  assumes "throws ev RecomputeRunCreate = None" "throws ev (RecomputeRunUpdate SUCCESS) = None"
  shows "\<exists>r w'. recomputeAnalytics ev w = (Inr r, w')"
  using assms by (simp add: recomputeAnalytics_def Let_def attempt_def split: prod.splits)

lemma length_filter_accepted:
  assumes "length rs = 3" and "length (filter (\<lambda>r. postId r = None) rs) = 1"
    and "\<forall>r \<in> set rs. postId r \<noteq> None \<longrightarrow> accepted ev r"
  shows "length (filter (accepted ev) rs) = 2"
proof -
  have "filter (accepted ev) rs = filter (\<lambda>r. \<not> postId r = None) rs"
    using assms(3) by (intro filter_cong) (auto simp: accepted_def split: option.splits)
  moreover have "length (filter (\<lambda>r. postId r = None) rs)
      + length (filter (\<lambda>r. \<not> postId r = None) rs) = length rs"
    by (rule sum_length_filter_compl)
  ultimately show ?thesis using assms(1,2) by simp
qed

text \<open>
  C2. When no call throws, \<open>saveImportedPosts\<close> returns success with the id of the
  Import it created, and what it adds to the snapshots is one snapshot for each row that
  is not skipped, in the order of the rows, each with the id and the time of the Import
  and the metrics of its row (0 for a null one). A row whose \<open>postId\<close> or \<open>createdAt\<close>
  is absent, or whose \<open>createdAt\<close> does not parse, is skipped. The count in the last
  line of the log is the number of rows that were not skipped, while the \<open>row_count\<close> of
  the Import is the number of rows submitted. For three rows of which exactly one lacks
  \<open>postId\<close> and the other two are accepted, two snapshots are added and the count is 2.
\<close>

theorem saveImportedPosts_snapshots:
  assumes "\<forall>c. throws ev c = None"
  shows "\<exists>importRecord snaps w'.
      saveImportedPosts ev d w = (Success (i_id importRecord), w')
      \<and> metricsSnapshots w' = metricsSnapshots w @ snaps
      \<and> map clearPost snaps =
          map (\<lambda>r. snapshotOf importRecord r 0) (filter (accepted ev) (d_rows d))
      \<and> length snaps = length (filter (accepted ev) (d_rows d))
      \<and> last (console w') = ImportSuccess (length (filter (accepted ev) (d_rows d)))
      \<and> imports_t w' = imports_t w @ [importRecord]
      \<and> row_count importRecord = length (d_rows d)
      \<and> (\<forall>row. postId row = None \<or> createdAt row = None
              \<or> (\<exists>c. createdAt row = Some c \<and> parseDate ev c = None)
            \<longrightarrow> \<not> accepted ev row)
      \<and> (length (d_rows d) = 3 \<and> length (filter (\<lambda>r. postId r = None) (d_rows d)) = 1
          \<and> (\<forall>r \<in> set (d_rows d). postId r \<noteq> None \<longrightarrow> accepted ev r)
            \<longrightarrow> length snaps = 2 \<and> last (console w') = ImportSuccess 2)"
proof -
  have nt: "noWriteThrows ev"
    using assms by (simp add: noWriteThrows_def noPostUpsertThrows_def)
  obtain imp sn wm where wd: "writesDone ev d w = ((imp, sn), wm)"
    by (cases "writesDone ev d w") auto
  obtain r w'' where rc: "recomputeAnalytics ev wm = (Inr r, w'')"
    using recompute_no_throw [of ev wm] assms by auto
  let ?w' = "consoleLog (ImportSuccess (length sn)) w''"
  have s: "saveImportedPosts ev d w = (Success (i_id imp), ?w')"
    using save_ok [OF nt wd rc] assms by simp
  have te: "tablesEq wm w''" using recompute_tables' [OF rc] .
  note f = writesDone_facts [OF wd]
  have len: "length sn = length (filter (accepted ev) (d_rows d))"
    using f(2) by (metis length_map)
  have a: "metricsSnapshots ?w' = metricsSnapshots w @ sn"
    using te f(1) by (simp add: tablesEq_def consoleLog_def)
  have b: "last (console ?w') = ImportSuccess (length (filter (accepted ev) (d_rows d)))"
    using len by (simp add: consoleLog_def)
  have c: "imports_t ?w' = imports_t w @ [imp]"
    using te f(3) by (simp add: tablesEq_def consoleLog_def)
  have sk: "\<forall>row. postId row = None \<or> createdAt row = None
              \<or> (\<exists>c. createdAt row = Some c \<and> parseDate ev c = None)
            \<longrightarrow> \<not> accepted ev row"
    by (auto simp: accepted_def)
  have three: "length (d_rows d) = 3 \<and> length (filter (\<lambda>r. postId r = None) (d_rows d)) = 1
          \<and> (\<forall>r \<in> set (d_rows d). postId r \<noteq> None \<longrightarrow> accepted ev r)
            \<longrightarrow> length sn = 2 \<and> last (console ?w') = ImportSuccess 2"
    using length_filter_accepted [of "d_rows d" ev] len b by auto
  show ?thesis
    apply (rule exI [of _ imp], rule exI [of _ sn], rule exI [of _ ?w'])
    using s a f(2) len b c f(4) sk three by blast
qed

lemma accepted_examples:
  "accepted envOk rowA" "\<not> accepted envOk rowNoId" "accepted envOk rowNoText"
  "accepted envOk rowA2"
  by (simp_all add: accepted_def envOk_def rowA_def rowNoId_def rowNoText_def rowA2_def trim_def
      isWhiteSpace_def)

theorem saveImportedPosts_snapshots_witness:
  "(\<forall>c. throws envOk c = None)
   \<and> length (d_rows (dataOf [rowA, rowNoId, rowNoText])) = 3
   \<and> postId rowNoId = None
   \<and> length (metricsSnapshots (snd (saveImportedPosts envOk (dataOf [rowA, rowNoId, rowNoText])
        emptyWorld))) = 2
   \<and> last (console (snd (saveImportedPosts envOk (dataOf [rowA, rowNoId, rowNoText])
        emptyWorld))) = ImportSuccess 2"
proof -
  have h: "\<forall>c. throws envOk c = None" by (simp add: envOk_def)
  have l: "length (d_rows (dataOf [rowA, rowNoId, rowNoText])) = 3
      \<and> length (filter (\<lambda>r. postId r = None) (d_rows (dataOf [rowA, rowNoId, rowNoText]))) = 1
      \<and> (\<forall>r \<in> set (d_rows (dataOf [rowA, rowNoId, rowNoText])).
            postId r \<noteq> None \<longrightarrow> accepted envOk r)"
    using accepted_examples by (simp add: dataOf_def rowA_def rowNoId_def rowNoText_def)
  have e: "metricsSnapshots emptyWorld = []" by (simp add: emptyWorld_def)
  have n: "postId rowNoId = None" by (simp add: rowNoId_def)
  let ?d = "dataOf [rowA, rowNoId, rowNoText]"
  from saveImportedPosts_snapshots [OF h, of ?d emptyWorld] show ?thesis
  proof (elim exE conjE)
    fix imp sn w'
    assume s: "saveImportedPosts envOk ?d emptyWorld = (Success (i_id imp), w')"
      and m: "metricsSnapshots w' = metricsSnapshots emptyWorld @ sn"
      and t: "length (d_rows ?d) = 3 \<and> length (filter (\<lambda>r. postId r = None) (d_rows ?d)) = 1
          \<and> (\<forall>r \<in> set (d_rows ?d). postId r \<noteq> None \<longrightarrow> accepted envOk r)
            \<longrightarrow> length sn = 2 \<and> last (console w') = ImportSuccess 2"
    have "length sn = 2 \<and> last (console w') = ImportSuccess 2" using t l by blast
    then show ?thesis using h l e n s m by simp
  qed
qed

lemma formatTag_empty: "formatTag [] = ''standard''"
  by (simp add: formatTag_def toLowerCase_def)

lemma fieldsFrom_null_text:
  assumes "postId row = Some pid" "createdAt row = Some c" "parseDate ev c = Some t"
    "text_r row = None"
  shows "fieldsFrom ev row p = emptyTextPost (trim pid) t p"
  using assms
  by (auto simp: fieldsFrom_def emptyTextPost_def rowKey_def rowText_def rowCreated_def
      countChar_def formatTag_empty)

text \<open>
  C10. Take a row whose \<open>postId\<close> is not blank, whose \<open>createdAt\<close> parses, and whose
  text is null (\<open>new Date("")\<close> is invalid, so a \<open>createdAt\<close> that parses is not
  empty). When its upsert does not throw, the row is not skipped, wherever it stands in
  its batch: the post it upserts is in the table under the trimmed \<open>postId\<close>, with the
  empty text, 0 characters, 1 word, no link, 0 hashtags, 0 mentions and the tag
  \<open>standard\<close>, and one snapshot that refers to this post is added to
  \<open>snapshotsToCreate\<close>. Submitted alone, with no write throwing, the row leaves such a
  post in the datastore and exactly one more snapshot, which refers to it.
\<close>

theorem null_text_row_imported:
  assumes "postId row = Some pid" and "trim pid \<noteq> []" and "createdAt row = Some c"
    and "c \<noteq> []" and "parseDate ev c = Some t" and "text_r row = None"
  shows "(throws ev (PostUpsert i) = None \<longrightarrow>
          (\<exists>post w' s. processRow ev user imp i row (w, sn) = (None, (w', sn @ [s]))
             \<and> post \<in> set (posts w') \<and> emptyTextPost (trim pid) t post
             \<and> post_id s = p_id post \<and> import_id s = i_id imp
             \<and> (\<forall>q \<in> set (posts w'). x_post_id q = trim pid \<longrightarrow> emptyTextPost (trim pid) t q)))
       \<and> (noWriteThrows ev \<and> d_rows d = [row] \<longrightarrow>
          (\<exists>post s. post \<in> set (posts (snd (saveImportedPosts ev d w)))
             \<and> emptyTextPost (trim pid) t post
             \<and> metricsSnapshots (snd (saveImportedPosts ev d w)) = metricsSnapshots w @ [s]
             \<and> post_id s = p_id post))"
proof -
  have acc: "accepted ev row" using assms by (simp add: accepted_def)
  have key: "rowKey row = trim pid" using assms by (simp add: rowKey_def)
  note ff = fieldsFrom_null_text [OF assms(1) assms(3) assms(5) assms(6)]
  have a: "throws ev (PostUpsert i) = None \<longrightarrow>
          (\<exists>post w' s. processRow ev user imp i row (w, sn) = (None, (w', sn @ [s]))
             \<and> post \<in> set (posts w') \<and> emptyTextPost (trim pid) t post
             \<and> post_id s = p_id post \<and> import_id s = i_id imp
             \<and> (\<forall>q \<in> set (posts w'). x_post_id q = trim pid \<longrightarrow> emptyTextPost (trim pid) t q))"
  proof
    assume nt: "throws ev (PostUpsert i) = None"
    let ?up = "rowUpsert ev user row w"
    let ?s = "snapshotOf imp row (p_id (fst ?up))"
    have pr: "processRow ev user imp i row (w, sn) = (None, (snd ?up, sn @ [?s]))"
      using processRow_ok [OF nt, of user imp row w sn] acc by simp
    have m: "fst ?up \<in> set (posts (snd ?up))" by (rule rowUpsert_mem)
    have f: "emptyTextPost (trim pid) t (fst ?up)"
      using rowUpsert_fields [of ev row user w] ff by simp
    have al: "\<forall>q \<in> set (posts (snd ?up)). x_post_id q = trim pid \<longrightarrow> emptyTextPost (trim pid) t q"
      using rowUpsert_all_fields [of _ ev user row w] ff key by simp
    have sp: "post_id ?s = p_id (fst ?up) \<and> import_id ?s = i_id imp"
      by (simp add: snapshotOf_def)
    show "\<exists>post w' s. processRow ev user imp i row (w, sn) = (None, (w', sn @ [s]))
             \<and> post \<in> set (posts w') \<and> emptyTextPost (trim pid) t post
             \<and> post_id s = p_id post \<and> import_id s = i_id imp
             \<and> (\<forall>q \<in> set (posts w'). x_post_id q = trim pid \<longrightarrow> emptyTextPost (trim pid) t q)"
      apply (rule exI [of _ "fst ?up"], rule exI [of _ "snd ?up"], rule exI [of _ ?s])
      using pr m f al sp by blast
  qed
  have b: "noWriteThrows ev \<and> d_rows d = [row] \<longrightarrow>
          (\<exists>post s. post \<in> set (posts (snd (saveImportedPosts ev d w)))
             \<and> emptyTextPost (trim pid) t post
             \<and> metricsSnapshots (snd (saveImportedPosts ev d w)) = metricsSnapshots w @ [s]
             \<and> post_id s = p_id post)"
  proof
    assume h: "noWriteThrows ev \<and> d_rows d = [row]"
    from single_import [of ev d row "snd (saveImportedPosts ev d w)" w] h acc
    obtain ir p where
      m: "metricsSnapshots (snd (saveImportedPosts ev d w))
            = metricsSnapshots w @ [snapshotOf ir row (p_id p)]"
      and p: "p \<in> set (posts (snd (saveImportedPosts ev d w)))"
      and f: "fieldsFrom ev row p"
      by auto
    have "post_id (snapshotOf ir row (p_id p)) = p_id p" by (simp add: snapshotOf_def)
    then show "\<exists>post s. post \<in> set (posts (snd (saveImportedPosts ev d w)))
             \<and> emptyTextPost (trim pid) t post
             \<and> metricsSnapshots (snd (saveImportedPosts ev d w)) = metricsSnapshots w @ [s]
             \<and> post_id s = p_id post"
      using m p f ff by blast
  qed
  show ?thesis using a b by blast
qed

theorem null_text_row_imported_witness:
  "postId rowNoText = Some '' 1002 '' \<and> trim '' 1002 '' = ''1002''
   \<and> text_r rowNoText = None \<and> noWriteThrows envOk
   \<and> (\<exists>post s. post \<in> set (posts (snd (saveImportedPosts envOk (dataOf [rowNoText]) emptyWorld)))
         \<and> emptyTextPost ''1002'' 1704067200000 post
         \<and> metricsSnapshots (snd (saveImportedPosts envOk (dataOf [rowNoText]) emptyWorld)) = [s]
         \<and> post_id s = p_id post)"
proof -
  have h1: "postId rowNoText = Some '' 1002 ''" "createdAt rowNoText = Some ''2024-01-01T00:00:00Z''"
    "text_r rowNoText = None"
    by (simp_all add: rowNoText_def rowA_def)
  have h2: "trim '' 1002 '' = ''1002''" by (simp add: trim_def isWhiteSpace_def)
  have h3: "parseDate envOk ''2024-01-01T00:00:00Z'' = Some 1704067200000"
    by (simp add: envOk_def)
  have h4: "noWriteThrows envOk"
    by (simp add: noWriteThrows_def noPostUpsertThrows_def envOk_def)
  have h5: "d_rows (dataOf [rowNoText]) = [rowNoText]" "metricsSnapshots emptyWorld = []"
    by (simp_all add: dataOf_def emptyWorld_def)
  have h6: "trim '' 1002 '' \<noteq> []" "''2024-01-01T00:00:00Z'' \<noteq> []"
    using h2 by simp_all
  show ?thesis
    using null_text_row_imported [OF h1(1) h6(1) h1(2) h6(2) h3 h1(3),
        of 0 userA importA emptyWorld "[]" "dataOf [rowNoText]"]
      h1 h2 h4 h5
    by simp
qed

text \<open>
  C3. Import one accepted row, then import one accepted row with the same external id
  (the same \<open>postId\<close> once trimmed), no write throwing in either import, into a
  datastore that holds at most one post with that id. Afterwards there is exactly one
  post with that id, it carries the text and the derived fields of the second row, and
  the two imports have added one snapshot each, both of this post and of different
  Imports.
\<close>

theorem reimport_same_post:
  assumes "noWriteThrows ev1" and "noWriteThrows ev2"
    and "d_rows d1 = [row1]" and "d_rows d2 = [row2]"
    and "accepted ev1 row1" and "accepted ev2 row2"
    and "rowKey row2 = rowKey row1"
    and "length (postsWith (rowKey row1) w) \<le> 1"
    and "w1 = snd (saveImportedPosts ev1 d1 w)"
    and "w2 = snd (saveImportedPosts ev2 d2 w1)"
  shows "\<exists>p imp1 imp2.
      postsWith (rowKey row1) w2 = [p] \<and> fieldsFrom ev2 row2 p
      \<and> metricsSnapshots w2 =
          metricsSnapshots w @ [snapshotOf imp1 row1 (p_id p), snapshotOf imp2 row2 (p_id p)]
      \<and> imports_t w2 = imports_t w @ [imp1, imp2] \<and> i_id imp1 \<noteq> i_id imp2
      \<and> length (filter (\<lambda>s. post_id s = p_id p) (metricsSnapshots w2)) =
          length (filter (\<lambda>s. post_id s = p_id p) (metricsSnapshots w)) + 2"
proof -
  from single_import [OF assms(1) assms(3) assms(5) assms(9)] assms(8)
  obtain imp1 p1 where
    m1: "metricsSnapshots w1 = metricsSnapshots w @ [snapshotOf imp1 row1 (p_id p1)]"
    and i1: "imports_t w1 = imports_t w @ [imp1]"
    and n1: "i_id imp1 < next_id w1"
    and u1: "postsWith (rowKey row1) w1 = [p1]"
    by auto
  have le: "length (postsWith (rowKey row2) w1) \<le> 1" using u1 assms(7) by simp
  from single_import [OF assms(2) assms(4) assms(6) assms(10)] le
  obtain imp2 p2 where
    m2: "metricsSnapshots w2 = metricsSnapshots w1 @ [snapshotOf imp2 row2 (p_id p2)]"
    and i2: "imports_t w2 = imports_t w1 @ [imp2]"
    and n2: "next_id w1 \<le> i_id imp2"
    and f2: "fieldsFrom ev2 row2 p2"
    and u2: "postsWith (rowKey row2) w2 = [p2]"
    and k2: "\<forall>p0. postsWith (rowKey row2) w1 = [p0] \<longrightarrow> p_id p2 = p_id p0"
    by auto
  have same: "p_id p2 = p_id p1" using k2 u1 assms(7) by simp
  have a: "metricsSnapshots w2 =
      metricsSnapshots w @ [snapshotOf imp1 row1 (p_id p2), snapshotOf imp2 row2 (p_id p2)]"
    using m1 m2 same by simp
  have b: "imports_t w2 = imports_t w @ [imp1, imp2]" using i1 i2 by simp
  have c: "i_id imp1 \<noteq> i_id imp2" using n1 n2 by simp
  have d: "length (filter (\<lambda>s. post_id s = p_id p2) (metricsSnapshots w2)) =
      length (filter (\<lambda>s. post_id s = p_id p2) (metricsSnapshots w)) + 2"
    by (simp add: a snapshotOf_def)
  show ?thesis
    apply (rule exI [of _ p2], rule exI [of _ imp1], rule exI [of _ imp2])
    using u2 assms(7) f2 a b c d by simp
qed

theorem reimport_same_post_witness:
  "noWriteThrows envOk \<and> accepted envOk rowA \<and> accepted envOk rowA2
   \<and> rowKey rowA2 = rowKey rowA \<and> rowKey rowA = ''1001''
   \<and> length (postsWith ''1001'' emptyWorld) = 0
   \<and> length (postsWith ''1001''
        (snd (saveImportedPosts envOk (dataOf [rowA2])
           (snd (saveImportedPosts envOk (dataOf [rowA]) emptyWorld))))) = 1
   \<and> length (metricsSnapshots
        (snd (saveImportedPosts envOk (dataOf [rowA2])
           (snd (saveImportedPosts envOk (dataOf [rowA]) emptyWorld))))) = 2
   \<and> text_p (hd (postsWith ''1001''
        (snd (saveImportedPosts envOk (dataOf [rowA2])
           (snd (saveImportedPosts envOk (dataOf [rowA]) emptyWorld)))))) = ''Edited?''"
proof -
  let ?w1 = "snd (saveImportedPosts envOk (dataOf [rowA]) emptyWorld)"
  let ?w2 = "snd (saveImportedPosts envOk (dataOf [rowA2]) ?w1)"
  have nt: "noWriteThrows envOk"
    by (simp add: noWriteThrows_def noPostUpsertThrows_def envOk_def)
  have d1: "d_rows (dataOf [rowA]) = [rowA]" and d2: "d_rows (dataOf [rowA2]) = [rowA2]"
    by (simp_all add: dataOf_def)
  have k: "rowKey rowA2 = rowKey rowA" and k1: "rowKey rowA = ''1001''"
    by (simp_all add: rowKey_def rowA2_def rowA_def trim_def isWhiteSpace_def)
  have e: "postsWith ''1001'' emptyWorld = []" "metricsSnapshots emptyWorld = []"
    by (simp_all add: postsWith_def emptyWorld_def)
  have le: "length (postsWith (rowKey rowA) emptyWorld) \<le> 1" using e k1 by simp
  have tx: "rowText rowA2 = ''Edited?''" by (simp add: rowText_def rowA2_def rowA_def)
  from reimport_same_post [OF nt nt d1 d2 accepted_examples(1) accepted_examples(4) k le refl refl]
  show ?thesis
  proof (elim exE conjE)
    fix p imp1 imp2
    assume u: "postsWith (rowKey rowA) ?w2 = [p]" and f: "fieldsFrom envOk rowA2 p"
      and m: "metricsSnapshots ?w2 =
          metricsSnapshots emptyWorld @ [snapshotOf imp1 rowA (p_id p), snapshotOf imp2 rowA2 (p_id p)]"
    have "text_p p = ''Edited?''" using f tx by (simp add: fieldsFrom_def)
    then show ?thesis
      using nt accepted_examples k k1 e u m by simp
  qed
qed

lemma recompute_failed:
  assumes "throws ev RecomputeRunCreate = None"
    and "throws ev (RecomputeRunUpdate SUCCESS) = Some e"
    and "throws ev (RecomputeRunUpdate FAILED) = None"
    and "\<forall>r \<in> set (recomputeRuns w). r_id r < next_id w"
  shows "\<exists>run w'. recomputeAnalytics ev w = (Inr (RecomputeFailed (messageOf e)), w')
      \<and> recomputeRuns w' = recomputeRuns w @ [run] \<and> failedRun ev e run"
proof -
  have "map (\<lambda>r. if r_id r = next_id w then f r else r) (recomputeRuns w) = recomputeRuns w"
    for f :: "run_rec \<Rightarrow> run_rec"
    using assms(4) by (intro map_idI) auto
  then show ?thesis
    using assms(1-3)
    by (simp add: recomputeAnalytics_def Let_def attempt_def consoleLog_def
        recomputeRunCreate_def recomputeRunUpdate_def failedRun_def)
qed

lemma recompute_create_throws:
  assumes "throws ev RecomputeRunCreate = Some e"
  shows "recomputeAnalytics ev w = (Inl e, consoleLog AnalyticsStarting w)"
  using assms by (simp add: recomputeAnalytics_def Let_def attempt_def)

lemma recompute_both_updates_throw:
  assumes "throws ev RecomputeRunCreate = None"
    and "throws ev (RecomputeRunUpdate SUCCESS) = Some e"
    and "throws ev (RecomputeRunUpdate FAILED) = Some e2"
  shows "\<exists>run w'. recomputeAnalytics ev w = (Inl e2, w')
      \<and> recomputeRuns w' = recomputeRuns w @ [run] \<and> status run = STARTED"
  using assms
  by (simp add: recomputeAnalytics_def Let_def attempt_def consoleLog_def recomputeRunCreate_def)

lemma writes_exist:
  assumes "noWriteThrows ev"
  shows "\<exists>imp sn wm. writesDone ev d w = ((imp, sn), wm)
      \<and> importWrites ev d w = (Inr (imp, sn), wm)"
proof -
  obtain imp sn wm where wd: "writesDone ev d w = ((imp, sn), wm)"
    by (cases "writesDone ev d w") auto
  then show ?thesis using importWrites_ok [OF assms, of d w] by simp
qed

text \<open>
  C9, as amended. \<open>recomputeAnalytics\<close> creates its run before its \<open>try\<close>, and
  \<open>saveImportedPosts\<close> awaits it inside its own \<open>try\<close>. When the run has been created,
  the update to SUCCESS throws and the update to FAILED is written, the run ends up as
  the last of the audit log, FAILED with the message, and the import returns success
  with the id of its Import. When creating the run throws, nothing is recorded and the
  import returns a failure with that message; when the update to FAILED throws as
  well, the run stays STARTED and the import returns a failure. In every case the
  users, imports, posts and snapshots are left as the writes of the import made them.
\<close>

theorem recompute_failure_recorded:
  "(noWriteThrows ev \<and> throws ev RecomputeRunCreate = None
      \<and> throws ev (RecomputeRunUpdate SUCCESS) = Some e
      \<and> throws ev (RecomputeRunUpdate FAILED) = None
      \<and> throws ev (RevalidatePath ''/'') = None
      \<and> throws ev (RevalidatePath ''/analytics'') = None
      \<and> (\<forall>r \<in> set (recomputeRuns w). r_id r < next_id w)
    \<longrightarrow> (\<exists>imp sn wm run.
          importWrites ev d w = (Inr (imp, sn), wm)
          \<and> fst (saveImportedPosts ev d w) = Success (i_id imp)
          \<and> recomputeRuns (snd (saveImportedPosts ev d w)) = recomputeRuns w @ [run]
          \<and> failedRun ev e run))
   \<and> (noWriteThrows ev \<and> throws ev RecomputeRunCreate = Some e
    \<longrightarrow> fst (saveImportedPosts ev d w) = Failure (messageOf e)
        \<and> recomputeRuns (snd (saveImportedPosts ev d w)) = recomputeRuns w)
   \<and> (noWriteThrows ev \<and> throws ev RecomputeRunCreate = None
      \<and> throws ev (RecomputeRunUpdate SUCCESS) = Some e
      \<and> throws ev (RecomputeRunUpdate FAILED) = Some e2
    \<longrightarrow> fst (saveImportedPosts ev d w) = Failure (messageOf e2)
        \<and> (\<exists>run. recomputeRuns (snd (saveImportedPosts ev d w)) = recomputeRuns w @ [run]
              \<and> status run = STARTED))
   \<and> tablesEq (snd (importWrites ev d w)) (snd (saveImportedPosts ev d w))"
proof -
  have a: "noWriteThrows ev \<and> throws ev RecomputeRunCreate = None
      \<and> throws ev (RecomputeRunUpdate SUCCESS) = Some e
      \<and> throws ev (RecomputeRunUpdate FAILED) = None
      \<and> throws ev (RevalidatePath ''/'') = None
      \<and> throws ev (RevalidatePath ''/analytics'') = None
      \<and> (\<forall>r \<in> set (recomputeRuns w). r_id r < next_id w)
    \<longrightarrow> (\<exists>imp sn wm run.
          importWrites ev d w = (Inr (imp, sn), wm)
          \<and> fst (saveImportedPosts ev d w) = Success (i_id imp)
          \<and> recomputeRuns (snd (saveImportedPosts ev d w)) = recomputeRuns w @ [run]
          \<and> failedRun ev e run)"
  proof
    assume h: "noWriteThrows ev \<and> throws ev RecomputeRunCreate = None
      \<and> throws ev (RecomputeRunUpdate SUCCESS) = Some e
      \<and> throws ev (RecomputeRunUpdate FAILED) = None
      \<and> throws ev (RevalidatePath ''/'') = None
      \<and> throws ev (RevalidatePath ''/analytics'') = None
      \<and> (\<forall>r \<in> set (recomputeRuns w). r_id r < next_id w)"
    then have nt: "noWriteThrows ev" by simp
    from writes_exist [OF nt, of d w] obtain imp sn wm where
      wd: "writesDone ev d w = ((imp, sn), wm)" and iw: "importWrites ev d w = (Inr (imp, sn), wm)"
      by (elim exE conjE)
    note f = writesDone_facts [OF wd]
    have fresh: "\<forall>r \<in> set (recomputeRuns wm). r_id r < next_id wm"
      using h f(6) f(8) f(9) by auto
    have t1: "throws ev RecomputeRunCreate = None"
      and t2: "throws ev (RecomputeRunUpdate SUCCESS) = Some e"
      and t3: "throws ev (RecomputeRunUpdate FAILED) = None"
      using h by simp_all
    from recompute_failed [OF t1 t2 t3 fresh] obtain run w' where
      rc: "recomputeAnalytics ev wm = (Inr (RecomputeFailed (messageOf e)), w')"
      and rr: "recomputeRuns w' = recomputeRuns wm @ [run]" and fr: "failedRun ev e run"
      by (elim exE conjE)
    have s: "saveImportedPosts ev d w =
        (Success (i_id imp), consoleLog (ImportSuccess (length sn)) w')"
      using save_ok [OF nt wd rc] h by simp
    have "recomputeRuns (snd (saveImportedPosts ev d w)) = recomputeRuns w @ [run]"
      using s rr f(6) by (simp add: consoleLog_def)
    then show "\<exists>imp sn wm run.
          importWrites ev d w = (Inr (imp, sn), wm)
          \<and> fst (saveImportedPosts ev d w) = Success (i_id imp)
          \<and> recomputeRuns (snd (saveImportedPosts ev d w)) = recomputeRuns w @ [run]
          \<and> failedRun ev e run"
      using iw s fr by auto
  qed
  have b: "noWriteThrows ev \<and> throws ev RecomputeRunCreate = Some e
    \<longrightarrow> fst (saveImportedPosts ev d w) = Failure (messageOf e)
        \<and> recomputeRuns (snd (saveImportedPosts ev d w)) = recomputeRuns w"
  proof
    assume h: "noWriteThrows ev \<and> throws ev RecomputeRunCreate = Some e"
    then have nt: "noWriteThrows ev" by simp
    from writes_exist [OF nt, of d w] obtain imp sn wm where
      wd: "writesDone ev d w = ((imp, sn), wm)" by (elim exE conjE)
    note f = writesDone_facts [OF wd]
    have rc: "recomputeAnalytics ev wm = (Inl e, consoleLog AnalyticsStarting wm)"
      using recompute_create_throws [of ev e wm] h by simp
    show "fst (saveImportedPosts ev d w) = Failure (messageOf e)
        \<and> recomputeRuns (snd (saveImportedPosts ev d w)) = recomputeRuns w"
      using save_recompute_throws [OF nt wd rc] f(6) by (simp add: consoleLog_def)
  qed
  have c: "noWriteThrows ev \<and> throws ev RecomputeRunCreate = None
      \<and> throws ev (RecomputeRunUpdate SUCCESS) = Some e
      \<and> throws ev (RecomputeRunUpdate FAILED) = Some e2
    \<longrightarrow> fst (saveImportedPosts ev d w) = Failure (messageOf e2)
        \<and> (\<exists>run. recomputeRuns (snd (saveImportedPosts ev d w)) = recomputeRuns w @ [run]
              \<and> status run = STARTED)"
  proof
    assume h: "noWriteThrows ev \<and> throws ev RecomputeRunCreate = None
      \<and> throws ev (RecomputeRunUpdate SUCCESS) = Some e
      \<and> throws ev (RecomputeRunUpdate FAILED) = Some e2"
    then have nt: "noWriteThrows ev" by simp
    from writes_exist [OF nt, of d w] obtain imp sn wm where
      wd: "writesDone ev d w = ((imp, sn), wm)" by (elim exE conjE)
    note f = writesDone_facts [OF wd]
    have t1: "throws ev RecomputeRunCreate = None"
      and t2: "throws ev (RecomputeRunUpdate SUCCESS) = Some e"
      and t3: "throws ev (RecomputeRunUpdate FAILED) = Some e2"
      using h by simp_all
    from recompute_both_updates_throw [OF t1 t2 t3, of wm] obtain run w' where
      rc: "recomputeAnalytics ev wm = (Inl e2, w')"
      and rr: "recomputeRuns w' = recomputeRuns wm @ [run]" and st: "status run = STARTED"
      by (elim exE conjE)
    show "fst (saveImportedPosts ev d w) = Failure (messageOf e2)
        \<and> (\<exists>run. recomputeRuns (snd (saveImportedPosts ev d w)) = recomputeRuns w @ [run]
              \<and> status run = STARTED)"
      using save_recompute_throws [OF nt wd rc] f(6) rr st by (simp add: consoleLog_def)
  qed
  show ?thesis using a b c save_tables [of ev d w] by blast
qed

lemma noWriteThrows_examples:
  "noWriteThrows envOk" "noWriteThrows envUpdateFails" "noWriteThrows envCreateFails"
  by (simp_all add: noWriteThrows_def noPostUpsertThrows_def envOk_def envUpdateFails_def
      envCreateFails_def)

theorem recompute_failure_recorded_witness:
  "throws envUpdateFails (RecomputeRunUpdate SUCCESS) = Some (Error ''timeout'')
   \<and> (\<exists>n. fst (saveImportedPosts envUpdateFails (dataOf [rowA]) emptyWorld) = Success n)
   \<and> (\<exists>run. recomputeRuns (snd (saveImportedPosts envUpdateFails (dataOf [rowA]) emptyWorld))
          = [run] \<and> status run = FAILED \<and> error_text run = Some ''timeout'')
   \<and> throws envCreateFails RecomputeRunCreate = Some (Error ''db down'')
   \<and> fst (saveImportedPosts envCreateFails (dataOf [rowA]) emptyWorld) = Failure ''db down''"
proof -
  have h: "throws envUpdateFails RecomputeRunCreate = None
      \<and> throws envUpdateFails (RecomputeRunUpdate SUCCESS) = Some (Error ''timeout'')
      \<and> throws envUpdateFails (RecomputeRunUpdate FAILED) = None
      \<and> throws envUpdateFails (RevalidatePath ''/'') = None
      \<and> throws envUpdateFails (RevalidatePath ''/analytics'') = None
      \<and> (\<forall>r \<in> set (recomputeRuns emptyWorld). r_id r < next_id emptyWorld)"
    by (simp add: envUpdateFails_def envOk_def emptyWorld_def)
  have g: "throws envCreateFails RecomputeRunCreate = Some (Error ''db down'')"
    by (simp add: envCreateFails_def envOk_def)
  have e: "recomputeRuns emptyWorld = []" by (simp add: emptyWorld_def)
  have m: "messageOf (Error ''timeout'') = ''timeout''" "messageOf (Error ''db down'') = ''db down''"
    by (simp_all add: messageOf_def)
  show ?thesis
    using h g e m noWriteThrows_examples
      recompute_failure_recorded [of envUpdateFails "Error ''timeout''" emptyWorld "dataOf [rowA]"]
      recompute_failure_recorded [of envCreateFails "Error ''db down''" emptyWorld "dataOf [rowA]"]
    by (auto simp: failedRun_def)
qed

text \<open>
  C9 as stated fails when creating the run throws: the import of one row returns a
  failure, no run is in the audit log, and the snapshot of the row stays written.
\<close>

theorem recompute_create_failure_counterexample:
  "throws envCreateFails RecomputeRunCreate = Some (Error ''db down'')
   \<and> fst (saveImportedPosts envCreateFails (dataOf [rowA]) emptyWorld) = Failure ''db down''
   \<and> recomputeRuns (snd (saveImportedPosts envCreateFails (dataOf [rowA]) emptyWorld)) = []
   \<and> length (metricsSnapshots
         (snd (saveImportedPosts envCreateFails (dataOf [rowA]) emptyWorld))) = 1"
proof -
  have g: "throws envCreateFails RecomputeRunCreate = Some (Error ''db down'')"
    by (simp add: envCreateFails_def envOk_def)
  from writes_exist [OF noWriteThrows_examples(3), of "dataOf [rowA]" emptyWorld]
  obtain imp sn wm where wd: "writesDone envCreateFails (dataOf [rowA]) emptyWorld = ((imp, sn), wm)"
    and iw: "importWrites envCreateFails (dataOf [rowA]) emptyWorld = (Inr (imp, sn), wm)"
    by (elim exE conjE)
  note f = writesDone_facts [OF wd]
  have acc: "filter (accepted envCreateFails) [rowA] = [rowA]"
    by (simp add: accepted_def envCreateFails_def envOk_def rowA_def trim_def isWhiteSpace_def)
  have len: "length sn = 1"
    using f(2) acc by (metis d_rows_dataOf length_map list.size(3) list.size(4) add_0 One_nat_def)
  have rc: "recomputeAnalytics envCreateFails wm
      = (Inl (Error ''db down''), consoleLog AnalyticsStarting wm)"
    using recompute_create_throws [OF g] .
  have s: "saveImportedPosts envCreateFails (dataOf [rowA]) emptyWorld =
      (Failure ''db down'',
       consoleLog (ImportErrorLine (Error ''db down'')) (consoleLog AnalyticsStarting wm))"
    using save_recompute_throws [OF noWriteThrows_examples(3) wd rc] by (simp add: messageOf_def)
  show ?thesis
    using g s f(1) f(6) len by (simp add: consoleLog_def emptyWorld_def)
qed

end
